theory Spec2Isabelle
  imports Complex_Main
begin

text \<open>
  A shallow embedding of the camera animation core of EarthStudio: the interpolation
  library, the keyframes and their manager (the timeline), the playback clock and the
  client-capture export, with the properties of the specification proved or refuted on
  it. Each component is a section of definitions translated from its source file; the
  sections of lemmas and theorems follow.
\<close>

section \<open>Numbers\<close>

text \<open>
  A JavaScript number is an IEEE 754 binary64 value. A number of the model is a real, and
  every result of \<open>+\<close>, \<open>-\<close>, \<open>*\<close> and \<open>/\<close> is rounded to the nearest binary64 value, ties to
  the even significand: 53 significant bits, the smallest exponent -1022 with the
  subnormal numbers below it. A number of the program is a real \<open>x\<close> with \<open>fl x = x\<close>.
  The remainder operator \<open>%\<close> is exact. NaN, the infinities and overflow (a result of
  magnitude \<open>2 ^ 1024\<close> or more) are outside the model, and -0 is 0.
\<close>

definition round_even :: "real \<Rightarrow> int" where
  \<comment> \<open>The nearest integer, the even one of two that are equally near.\<close>
  "round_even y =
     (let f = \<lfloor>y\<rfloor>; r = y - of_int f
      in if r < 1 / 2 then f else if 1 / 2 < r then f + 1 else if even f then f else f + 1)"

definition ulp_exp :: "real \<Rightarrow> int" where
  \<comment> \<open>The exponent of the spacing of the binary64 values around \<open>x\<close>, for \<open>x\<close> not 0.\<close>
  "ulp_exp x = max \<lfloor>log 2 \<bar>x\<bar>\<rfloor> (- 1022) - 52"

definition fl :: "real \<Rightarrow> real" where
  \<comment> \<open>The binary64 value nearest to \<open>x\<close>.\<close>
  "fl x = (if x = 0 then 0 else of_int (round_even (x / 2 powi ulp_exp x)) * 2 powi ulp_exp x)"

section \<open>Interpolation library (src/js/interpolation.js)\<close>

definition linear_easing :: "real \<Rightarrow> real" where
  \<comment> \<open>\<open>linear(t)\<close>; the suffix avoids the constant \<open>linear\<close> of the library.\<close>
  "linear_easing t = t"

definition pow3 :: "real \<Rightarrow> real" where
  \<comment> \<open>\<open>Math.pow(x, 3)\<close>, taken as the cube rounded once.\<close>
  "pow3 x = fl (x ^ 3)"

definition easeIn :: "real \<Rightarrow> real" where
  "easeIn t = fl (fl (t * t) * t)"

definition easeOut :: "real \<Rightarrow> real" where
  "easeOut t = fl (1 - pow3 (fl (1 - t)))"

definition easeInOut :: "real \<Rightarrow> real" where
  "easeInOut t =
     (if t < 1 / 2 then fl (fl (fl (4 * t) * t) * t)
      else fl (1 - fl (pow3 (fl (fl (- 2 * t) + 2)) / 2)))"

definition sampleCurve :: "real \<Rightarrow> real \<Rightarrow> real \<Rightarrow> real \<Rightarrow> real" where
  \<comment> \<open>\<open>sampleCurveX\<close> and \<open>sampleCurveY\<close>: the same polynomial on the x and y coefficients.\<close>
  "sampleCurve a b c u = fl (fl (fl (fl (fl (a * u) + b) * u) + c) * u)"

text \<open>
  The Newton-Raphson loop of \<open>bezier\<close>: at most \<open>n\<close> more iterations (the source runs 8),
  leaving the loop early when the residual or the derivative is small.
\<close>

fun newton :: "real \<Rightarrow> real \<Rightarrow> real \<Rightarrow> real \<Rightarrow> nat \<Rightarrow> real \<Rightarrow> real" where
  "newton ax bx cx t 0 t2 = t2"
| "newton ax bx cx t (Suc n) t2 =
     (let x = fl (sampleCurve ax bx cx t2 - t) in
      if \<bar>x\<bar> < fl 0.001 then t2
      else let d = fl (fl (fl (fl (fl (3 * ax) * t2) + fl (2 * bx)) * t2) + cx) in
        if \<bar>d\<bar> < fl 0.000001 then t2
        else newton ax bx cx t n (fl (t2 - fl (x / d))))"

definition bezier :: "real \<Rightarrow> real \<Rightarrow> real \<Rightarrow> real \<Rightarrow> real \<Rightarrow> real" where
  "bezier t p1 p2 p3 p4 =
     (let cx = fl (3 * p1);
          bx = fl (fl (3 * fl (p3 - p1)) - cx);
          ax = fl (fl (1 - cx) - bx);
          cy = fl (3 * p2);
          b_y = fl (fl (3 * fl (p4 - p2)) - cy);
          ay = fl (fl (1 - cy) - b_y);
          t2 = newton ax bx cx t 8 t
      in sampleCurve ay b_y cy t2)"

definition easing_kinds :: "string list" where
  \<comment> \<open>The easing kinds of the data model; each names a one-argument member of the object.\<close>
  "easing_kinds = [''linear'', ''easeIn'', ''easeOut'', ''easeInOut'', ''bezier'']"

definition easedT :: "string \<Rightarrow> real \<Rightarrow> real" where
  \<comment> \<open>\<open>this[type] ? this[type](t) : this.linear(t)\<close>. A name that the object does not
      define falls back to \<open>linear\<close>; \<open>bezier\<close> is called with \<open>t\<close> alone, so its control
      points take their defaults, the doubles nearest 0.42 and 0.58. The model covers the
      easing kinds and unknown names, not the names of the object's other members.\<close>
  "easedT type t =
     (if type = ''linear'' then linear_easing t
      else if type = ''easeIn'' then easeIn t
      else if type = ''easeOut'' then easeOut t
      else if type = ''easeInOut'' then easeInOut t
      else if type = ''bezier'' then bezier t (fl 0.42) 0 (fl 0.58) 1
      else linear_easing t)"

definition interpolate :: "real \<Rightarrow> real \<Rightarrow> real \<Rightarrow> string \<Rightarrow> real" where
  "interpolate a b t type = fl (a + fl (fl (b - a) * easedT type t))"

text \<open>
  \<open>normalizeAngle\<close> is two while loops, one after the other. On doubles a loop need not
  end: the subtraction of 360 leaves a large angle as it is. A loop that does not
  return has the value \<open>None\<close>.
\<close>

partial_function (option) above180 :: "real \<Rightarrow> real option" where
  \<comment> \<open>\<open>while (angle > 180) angle -= 360\<close>\<close>
  "above180 angle = (if angle > 180 then above180 (fl (angle - 360)) else Some angle)"

partial_function (option) below180 :: "real \<Rightarrow> real option" where
  \<comment> \<open>\<open>while (angle < -180) angle += 360\<close>\<close>
  "below180 angle = (if angle < - 180 then below180 (fl (angle + 360)) else Some angle)"

definition normalizeAngle :: "real \<Rightarrow> real option" where
  "normalizeAngle angle = (case above180 angle of None \<Rightarrow> None | Some a \<Rightarrow> below180 a)"

definition shortest :: "real \<Rightarrow> real" where
  \<comment> \<open>\<open>if (diff > 180) diff -= 360; if (diff < -180) diff += 360\<close>\<close>
  "shortest diff =
     (let d1 = (if diff > 180 then fl (diff - 360) else diff)
      in if d1 < - 180 then fl (d1 + 360) else d1)"

definition interpolateAngle :: "real \<Rightarrow> real \<Rightarrow> real \<Rightarrow> string \<Rightarrow> real option" where
  "interpolateAngle start target t type =
     (let e = easedT type t in
      case normalizeAngle start of
        None \<Rightarrow> None
      | Some s \<Rightarrow>
          (case normalizeAngle target of
            None \<Rightarrow> None
          | Some g \<Rightarrow>
              let diff = shortest (fl (g - s))
              in normalizeAngle (fl (s + fl (diff * e)))))"

section \<open>Keyframes and the keyframe manager (src/js/app.js)\<close>

record pose =
  latitude :: real
  longitude :: real
  height :: real
  heading :: real
  pitch :: real
  roll :: real
  fov :: real

text \<open>
  A \<open>Keyframe\<close> object holds the seven pose fields, its time and the name of its
  interpolation type. The object literal that \<open>toJSON\<close> returns has the same nine fields.
\<close>

record Keyframe = pose +
  time :: real
  interpolationType :: string

type_synonym KeyframeJSON = Keyframe

text \<open>
  The \<open>cameraData\<close> argument of the constructor; \<open>cd_fov = None\<close> stands for an object
  without the field \<open>fov\<close> (reading it gives \<open>undefined\<close>).
\<close>

record cameraData =
  cd_latitude :: real
  cd_longitude :: real
  cd_height :: real
  cd_heading :: real
  cd_pitch :: real
  cd_roll :: real
  cd_fov :: "real option"

text \<open>
  An entry of the keyframe list of a parsed document, as \<open>Keyframe.fromJSON\<close> reads it:
  the fields of \<open>cameraData\<close>, the time and the interpolation type, which is \<open>None\<close>
  when the entry does not have it.
\<close>

record KeyframeData = cameraData +
  d_time :: real
  d_interpolationType :: "string option"

definition or_default :: "real option \<Rightarrow> real \<Rightarrow> real" where
  \<comment> \<open>\<open>x || d\<close> on a number or \<open>undefined\<close>: \<open>undefined\<close> and 0 are falsy.\<close>
  "or_default x d = (case x of None \<Rightarrow> d | Some v \<Rightarrow> if v = 0 then d else v)"

definition new_Keyframe :: "real \<Rightarrow> cameraData \<Rightarrow> string option \<Rightarrow> Keyframe" where
  \<comment> \<open>The constructor; an absent third argument takes the default \<open>'easeInOut'\<close>.\<close>
  "new_Keyframe t cd itype =
     \<lparr>latitude = cd_latitude cd,
      longitude = cd_longitude cd,
      height = cd_height cd,
      heading = cd_heading cd,
      pitch = cd_pitch cd,
      roll = cd_roll cd,
      fov = or_default (cd_fov cd) 60,
      time = t,
      interpolationType = (case itype of None \<Rightarrow> ''easeInOut'' | Some s \<Rightarrow> s)\<rparr>"

definition clone :: "Keyframe \<Rightarrow> Keyframe" where
  "clone k =
     new_Keyframe (time k)
       \<lparr>cd_latitude = latitude k, cd_longitude = longitude k, cd_height = height k,
        cd_heading = heading k, cd_pitch = pitch k, cd_roll = roll k, cd_fov = Some (fov k)\<rparr>
       (Some (interpolationType k))"

definition toJSON :: "Keyframe \<Rightarrow> KeyframeJSON" where
  "toJSON k =
     \<lparr>latitude = latitude k,
      longitude = longitude k,
      height = height k,
      heading = heading k,
      pitch = pitch k,
      roll = roll k,
      fov = fov k,
      time = time k,
      interpolationType = interpolationType k\<rparr>"

definition fromJSON :: "KeyframeData \<Rightarrow> Keyframe" where
  "fromJSON data =
     new_Keyframe (d_time data)
       \<lparr>cd_latitude = cd_latitude data, cd_longitude = cd_longitude data,
        cd_height = cd_height data, cd_heading = cd_heading data, cd_pitch = cd_pitch data,
        cd_roll = cd_roll data, cd_fov = cd_fov data\<rparr>
       (d_interpolationType data)"

definition parsed :: "KeyframeJSON \<Rightarrow> KeyframeData" where
  \<comment> \<open>An exported entry read back from the document: every field is present.\<close>
  "parsed j =
     \<lparr>cd_latitude = latitude j, cd_longitude = longitude j, cd_height = height j,
      cd_heading = heading j, cd_pitch = pitch j, cd_roll = roll j, cd_fov = Some (fov j),
      d_time = time j, d_interpolationType = Some (interpolationType j)\<rparr>"

text \<open>
  The second argument of \<open>updateKeyframe\<close>, which \<open>Object.assign\<close> copies onto the
  keyframe: each field is present (\<open>Some\<close>) or not.
\<close>

record newData =
  new_time :: "real option"
  new_latitude :: "real option"
  new_longitude :: "real option"
  new_height :: "real option"
  new_heading :: "real option"
  new_pitch :: "real option"
  new_roll :: "real option"
  new_fov :: "real option"
  new_interpolationType :: "string option"

definition assign :: "Keyframe \<Rightarrow> newData \<Rightarrow> Keyframe" where
  \<comment> \<open>\<open>Object.assign(keyframe, newData)\<close>\<close>
  "assign k n =
     \<lparr>latitude = (case new_latitude n of None \<Rightarrow> latitude k | Some v \<Rightarrow> v),
      longitude = (case new_longitude n of None \<Rightarrow> longitude k | Some v \<Rightarrow> v),
      height = (case new_height n of None \<Rightarrow> height k | Some v \<Rightarrow> v),
      heading = (case new_heading n of None \<Rightarrow> heading k | Some v \<Rightarrow> v),
      pitch = (case new_pitch n of None \<Rightarrow> pitch k | Some v \<Rightarrow> v),
      roll = (case new_roll n of None \<Rightarrow> roll k | Some v \<Rightarrow> v),
      fov = (case new_fov n of None \<Rightarrow> fov k | Some v \<Rightarrow> v),
      time = (case new_time n of None \<Rightarrow> time k | Some v \<Rightarrow> v),
      interpolationType =
        (case new_interpolationType n of None \<Rightarrow> interpolationType k | Some v \<Rightarrow> v)\<rparr>"

text \<open>
  Keyframes are objects: the manager's array holds references, \<open>updateKeyframe\<close> mutates
  the object it is given, and \<open>removeKeyframe\<close> and \<open>interpolateAt\<close> compare references.
  The state therefore keeps the contents of the objects in a store indexed by reference;
  \<open>next_ref\<close> is the reference the next \<open>new Keyframe\<close> gets.
\<close>

type_synonym ref = nat

datatype manager_event =
  KeyframeAdded ref
  | KeyframeRemoved ref
  | KeyframeUpdated ref
  | KeyframeSelected "ref option"
  | KeyframesChanged "ref list"

record KeyframeManager =
  objects :: "ref \<Rightarrow> Keyframe"
  next_ref :: ref
  keyframes :: "ref list"
  selectedKeyframe :: "ref option"
  emitted :: "manager_event list"

definition emit :: "manager_event \<Rightarrow> KeyframeManager \<Rightarrow> KeyframeManager" where
  "emit e m = m\<lparr>emitted := emitted m @ [e]\<rparr>"

definition new_KeyframeManager :: "(ref \<Rightarrow> Keyframe) \<Rightarrow> KeyframeManager" where
  \<comment> \<open>The constructor: no keyframes, nothing selected. No object exists yet, so the
      store it starts from is never read before it is written.\<close>
  "new_KeyframeManager store =
     \<lparr>objects = store, next_ref = 0, keyframes = [], selectedKeyframe = None, emitted = []\<rparr>"

definition allocate :: "Keyframe \<Rightarrow> KeyframeManager \<Rightarrow> ref \<times> KeyframeManager" where
  \<comment> \<open>\<open>new Keyframe(...)\<close>: a fresh object with the given contents.\<close>
  "allocate k m =
     (next_ref m, m\<lparr>objects := (objects m)(next_ref m := k), next_ref := Suc (next_ref m)\<rparr>)"

definition sortKeyframes :: "KeyframeManager \<Rightarrow> KeyframeManager" where
  \<comment> \<open>\<open>this.keyframes.sort((a, b) => a.time - b.time)\<close>: the array sort is stable.\<close>
  "sortKeyframes m = m\<lparr>keyframes := sort_key (\<lambda>r. time (objects m r)) (keyframes m)\<rparr>"

definition addKeyframe :: "ref \<Rightarrow> KeyframeManager \<Rightarrow> KeyframeManager" where
  "addKeyframe keyframe m =
     (let m1 = m\<lparr>keyframes := keyframes m @ [keyframe]\<rparr>;
          m2 = sortKeyframes m1;
          m3 = emit (KeyframeAdded keyframe) m2
      in emit (KeyframesChanged (keyframes m3)) m3)"

definition removeKeyframe :: "ref \<Rightarrow> KeyframeManager \<Rightarrow> bool \<times> KeyframeManager" where
  \<comment> \<open>\<open>indexOf\<close> finds the first occurrence of the reference, \<open>splice\<close> removes it.\<close>
  "removeKeyframe keyframe m =
     (if keyframe \<in> set (keyframes m) then
        let m1 = m\<lparr>keyframes := remove1 keyframe (keyframes m)\<rparr>;
            m2 = (if selectedKeyframe m1 = Some keyframe
                  then emit (KeyframeSelected None) (m1\<lparr>selectedKeyframe := None\<rparr>)
                  else m1);
            m3 = emit (KeyframeRemoved keyframe) m2
        in (True, emit (KeyframesChanged (keyframes m3)) m3)
      else (False, m))"

definition updateKeyframe :: "ref \<Rightarrow> newData \<Rightarrow> KeyframeManager \<Rightarrow> KeyframeManager" where
  "updateKeyframe keyframe n m =
     (let m1 = m\<lparr>objects := (objects m)(keyframe := assign (objects m keyframe) n)\<rparr>;
          m2 = sortKeyframes m1;
          m3 = emit (KeyframeUpdated keyframe) m2
      in emit (KeyframesChanged (keyframes m3)) m3)"

definition selectKeyframe :: "ref option \<Rightarrow> KeyframeManager \<Rightarrow> KeyframeManager" where
  "selectKeyframe keyframe m = emit (KeyframeSelected keyframe) (m\<lparr>selectedKeyframe := keyframe\<rparr>)"

definition clear :: "KeyframeManager \<Rightarrow> KeyframeManager" where
  "clear m = emit (KeyframesChanged []) (m\<lparr>keyframes := [], selectedKeyframe := None\<rparr>)"

text \<open>
  The loop of \<open>getSurroundingKeyframes\<close> over the array, with its two variables; it
  leaves the loop as soon as \<open>after\<close> is set.
\<close>

fun surrounding ::
  "(ref \<Rightarrow> Keyframe) \<Rightarrow> real \<Rightarrow> ref list \<Rightarrow> ref option \<Rightarrow> ref option \<Rightarrow> ref option \<times> ref option"
where
  "surrounding obj t [] before after = (before, after)"
| "surrounding obj t (k # ks) before after =
     (let before' = (if time (obj k) \<le> t then Some k else before) in
      if time (obj k) \<ge> t \<and> after = None then (before', Some k)
      else surrounding obj t ks before' after)"

definition getSurroundingKeyframes :: "KeyframeManager \<Rightarrow> real \<Rightarrow> ref option \<times> ref option" where
  "getSurroundingKeyframes m t =
     (if length (keyframes m) = 0 then (None, None)
      else surrounding (objects m) t (keyframes m) None None)"

definition default_pose :: pose where
  "default_pose =
     \<lparr>latitude = 35.6762, longitude = 139.6503, height = 10000, heading = 0,
      pitch = - 45, roll = 0, fov = 60\<rparr>"

text \<open>
  \<open>interpolateAt\<close> returns either an object with the seven pose fields or the nine-field
  object of \<open>toJSON\<close>.
\<close>

datatype camera_sample = PoseObject pose | KeyframeObject KeyframeJSON

fun sample_pose :: "camera_sample \<Rightarrow> pose" where
  "sample_pose (PoseObject p) = p"
| "sample_pose (KeyframeObject j) = pose.truncate j"

definition interpolateAt :: "KeyframeManager \<Rightarrow> real \<Rightarrow> camera_sample" where
  \<comment> \<open>The three angles are the results of \<open>interpolateAngle\<close>; where its loops do not
      return, neither does the source, and the angle of the model is unspecified.\<close>
  "interpolateAt m t =
     (case getSurroundingKeyframes m t of
        (None, None) \<Rightarrow> PoseObject default_pose
      | (None, Some a) \<Rightarrow> KeyframeObject (toJSON (objects m a))
      | (Some b, None) \<Rightarrow> KeyframeObject (toJSON (objects m b))
      | (Some b, Some a) \<Rightarrow>
          if b = a then KeyframeObject (toJSON (objects m b))
          else
            let before = objects m b;
                after = objects m a;
                duration = fl (time after - time before);
                elapsed = fl (t - time before);
                u = (if duration > 0 then fl (elapsed / duration) else 0);
                interpType = interpolationType before
            in PoseObject
                 \<lparr>latitude = interpolate (latitude before) (latitude after) u interpType,
                  longitude = interpolate (longitude before) (longitude after) u interpType,
                  height = interpolate (height before) (height after) u interpType,
                  heading = the (interpolateAngle (heading before) (heading after) u interpType),
                  pitch = the (interpolateAngle (pitch before) (pitch after) u interpType),
                  roll = the (interpolateAngle (roll before) (roll after) u interpType),
                  fov = interpolate (fov before) (fov after) u interpType\<rparr>)"

definition getAllKeyframes :: "KeyframeManager \<Rightarrow> ref list" where
  "getAllKeyframes m = keyframes m"

record export_document =
  version :: string
  doc_keyframes :: "KeyframeJSON list"

definition exportToJSON :: "KeyframeManager \<Rightarrow> export_document" where
  "exportToJSON m =
     \<lparr>version = ''1.0'', doc_keyframes = map (\<lambda>kf. toJSON (objects m kf)) (keyframes m)\<rparr>"

definition import_entry :: "KeyframeData \<Rightarrow> KeyframeManager \<Rightarrow> KeyframeManager" where
  \<comment> \<open>The body of the \<open>forEach\<close>: \<open>this.addKeyframe(Keyframe.fromJSON(kfData))\<close>.\<close>
  "import_entry kfData m = (case allocate (fromJSON kfData) m of (r, m') \<Rightarrow> addKeyframe r m')"

definition importFromJSON :: "KeyframeData list option \<Rightarrow> KeyframeManager \<Rightarrow> KeyframeManager" where
  \<comment> \<open>The argument is \<open>data.keyframes\<close>: \<open>None\<close> when the document has no such field.\<close>
  "importFromJSON data_keyframes m =
     (let m1 = clear m in
      case data_keyframes of None \<Rightarrow> m1 | Some entries \<Rightarrow> fold import_entry entries m1)"

definition reimport :: "KeyframeManager \<Rightarrow> KeyframeManager" where
  \<comment> \<open>Export followed by the import of the exported document.\<close>
  "reimport m = importFromJSON (Some (map parsed (doc_keyframes (exportToJSON m)))) m"

definition keyframe_values :: "KeyframeManager \<Rightarrow> Keyframe list" where
  \<comment> \<open>The stored sequence of keyframes, by contents.\<close>
  "keyframe_values m = map (objects m) (keyframes m)"

definition sorted_by_time :: "KeyframeManager \<Rightarrow> bool" where
  "sorted_by_time m = sorted (map time (keyframe_values m))"

text \<open>
  The operations a client of the manager can perform. A reference that no
  \<open>new Keyframe\<close> has produced yet does not exist, so an operation on one has no effect.
\<close>

datatype operation =
  NewKeyframe real cameraData "string option"
  | AddKeyframe ref
  | RemoveKeyframe ref
  | UpdateKeyframe ref newData
  | SelectKeyframe "ref option"
  | Clear
  | ImportFromJSON "KeyframeData list option"

fun perform :: "operation \<Rightarrow> KeyframeManager \<Rightarrow> KeyframeManager" where
  "perform (NewKeyframe t cd itype) m = snd (allocate (new_Keyframe t cd itype) m)"
| "perform (AddKeyframe r) m = (if r < next_ref m then addKeyframe r m else m)"
| "perform (RemoveKeyframe r) m = (if r < next_ref m then snd (removeKeyframe r m) else m)"
| "perform (UpdateKeyframe r n) m = (if r < next_ref m then updateKeyframe r n m else m)"
| "perform (SelectKeyframe None) m = selectKeyframe None m"
| "perform (SelectKeyframe (Some r)) m = (if r < next_ref m then selectKeyframe (Some r) m else m)"
| "perform Clear m = clear m"
| "perform (ImportFromJSON d) m = importFromJSON d m"

definition run :: "operation list \<Rightarrow> KeyframeManager \<Rightarrow> KeyframeManager" where
  "run ops m = fold perform ops m"

definition refs_allocated :: "KeyframeManager \<Rightarrow> bool" where
  \<comment> \<open>Every reference in the array is one that \<open>new Keyframe\<close> has produced.\<close>
  "refs_allocated m = (\<forall>r \<in> set (keyframes m). r < next_ref m)"

text \<open>
  Example data: a camera over Tokyo, and the timeline that the operations of a session
  build from two keyframes created at times 5 and 1.
\<close>

definition tokyo :: cameraData where
  "tokyo =
     \<lparr>cd_latitude = 35.6762, cd_longitude = 139.6503, cd_height = 500, cd_heading = 350,
      cd_pitch = - 45, cd_roll = 0, cd_fov = Some 50\<rparr>"

definition blank_store :: "ref \<Rightarrow> Keyframe" where
  "blank_store = (\<lambda>r. new_Keyframe 0 tokyo None)"

definition two_keyframes :: KeyframeManager where
  "two_keyframes =
     run [NewKeyframe 5 tokyo None, AddKeyframe 0, NewKeyframe 1 tokyo (Some ''linear''),
          AddKeyframe 1]
       (new_KeyframeManager blank_store)"

definition one_keyframe :: KeyframeManager where
  "one_keyframe =
     run [NewKeyframe 5 tokyo None, AddKeyframe 0] (new_KeyframeManager blank_store)"

definition twin_keyframes :: KeyframeManager where
  \<comment> \<open>Two keyframes added at the same time 1, the first 100 m high, the second 200 m.\<close>
  "twin_keyframes =
     run [NewKeyframe 1 (tokyo\<lparr>cd_height := 100\<rparr>) None, AddKeyframe 0,
          NewKeyframe 1 (tokyo\<lparr>cd_height := 200\<rparr>) None, AddKeyframe 1]
       (new_KeyframeManager blank_store)"

text \<open>
  More example data: an update that sets the field of view to 0 (the property panel
  passes on the number its input holds); the timeline after such an update; and a
  document entry whose field of view is 0.
\<close>

definition zero_fov :: newData where
  "zero_fov =
     \<lparr>new_time = None, new_latitude = None, new_longitude = None, new_height = None,
      new_heading = None, new_pitch = None, new_roll = None, new_fov = Some 0,
      new_interpolationType = None\<rparr>"

definition fov_zero_timeline :: KeyframeManager where
  "fov_zero_timeline =
     run [NewKeyframe 5 tokyo None, AddKeyframe 0, UpdateKeyframe 0 zero_fov]
       (new_KeyframeManager blank_store)"

definition zero_fov_entry :: KeyframeData where
  "zero_fov_entry =
     \<lparr>cd_latitude = 35.6762, cd_longitude = 139.6503, cd_height = 500, cd_heading = 350,
      cd_pitch = - 45, cd_roll = 0, cd_fov = Some 0, d_time = 2,
      d_interpolationType = Some ''linear''\<rparr>"

section \<open>The playback clock (src/js/animation-controller.js)\<close>

text \<open>
  The controller calls its collaborators (the renderer, the timeline editor, the
  browser's animation frames) and emits events to its listeners. The model records
  these calls and events, in order, in the field \<open>effects\<close>.
\<close>

datatype clock_event =
  Play real
  | Pause real
  | Stop real
  | TimeUpdate real
  | FrameUpdate real int
  | Finished

datatype effect =
  Emit clock_event
  | EnableCameraControls bool
  | SetCameraPosition camera_sample
  | SetFOV real
  | Resize
  | UpdatePlayhead real
  | SetCurrentTime real
  | SetTimelineDuration real
  | SetTimelineFPS real
  | RequestAnimationFrame
  | CancelAnimationFrame
  | StartSession
  | UploadFrame string nat
  | FinishSession string int string
  | Download

text \<open>
  \<open>animationFrameId\<close> is \<open>True\<close> when the field holds a request id (ids are non-zero, so
  the field is truthy) and \<open>False\<close> when it is \<open>null\<close>.
\<close>

record AnimationController =
  isPlaying :: bool
  currentTime :: real
  duration :: real
  fps :: real
  frameInterval :: real
  lastFrameTime :: real
  animationFrameId :: bool
  loop :: bool
  effects :: "effect list"

definition new_AnimationController :: AnimationController where
  "new_AnimationController =
     \<lparr>isPlaying = False, currentTime = 0, duration = 10, fps = 30, frameInterval = 1000 / 30,
      lastFrameTime = 0, animationFrameId = False, loop = False, effects = []\<rparr>"

definition perform_effect :: "effect \<Rightarrow> AnimationController \<Rightarrow> AnimationController" where
  "perform_effect e c = c\<lparr>effects := effects c @ [e]\<rparr>"

definition js_rem :: "real \<Rightarrow> real \<Rightarrow> real" where
  \<comment> \<open>The remainder operator \<open>%\<close> on numbers, for a divisor that is not 0: the quotient is
      truncated towards zero.\<close>
  "js_rem a b = a - b * of_int (if 0 \<le> a / b then \<lfloor>a / b\<rfloor> else \<lceil>a / b\<rceil>)"

definition getCurrentFrame :: "AnimationController \<Rightarrow> int" where
  "getCurrentFrame c = \<lfloor>currentTime c * fps c\<rfloor>"

definition getTotalFrames :: "AnimationController \<Rightarrow> int" where
  "getTotalFrames c = \<lfloor>duration c * fps c\<rfloor>"

definition updateCamera :: "KeyframeManager \<Rightarrow> AnimationController \<Rightarrow> AnimationController" where
  "updateCamera km c =
     (let cameraData = interpolateAt km (currentTime c)
      in perform_effect (SetFOV (fov (sample_pose cameraData)))
           (perform_effect (SetCameraPosition cameraData) c))"

definition pause :: "AnimationController \<Rightarrow> AnimationController" where
  "pause c =
     (if \<not> isPlaying c then c
      else
        let c1 = perform_effect (EnableCameraControls True) (c\<lparr>isPlaying := False\<rparr>);
            c2 = (if animationFrameId c1
                  then (perform_effect CancelAnimationFrame c1)\<lparr>animationFrameId := False\<rparr>
                  else c1)
        in perform_effect (Emit (Pause (currentTime c2))) c2)"

definition request_frame :: "AnimationController \<Rightarrow> AnimationController" where
  \<comment> \<open>\<open>this.animationFrameId = requestAnimationFrame(() => this.animate())\<close>\<close>
  "request_frame c = (perform_effect RequestAnimationFrame c)\<lparr>animationFrameId := True\<rparr>"

definition frame_updates :: "KeyframeManager \<Rightarrow> AnimationController \<Rightarrow> AnimationController" where
  \<comment> \<open>The end of an advancing tick: camera, playhead, then the two events.\<close>
  "frame_updates km c =
     (let c1 = updateCamera km c;
          c2 = perform_effect (UpdatePlayhead (currentTime c1)) c1;
          c3 = perform_effect (Emit (TimeUpdate (currentTime c2))) c2
      in perform_effect (Emit (FrameUpdate (currentTime c3) (getCurrentFrame c3))) c3)"

text \<open>
  One tick: \<open>animate\<close> with the value \<open>now\<close> that \<open>performance.now()\<close> returns.
\<close>

definition animate :: "KeyframeManager \<Rightarrow> real \<Rightarrow> AnimationController \<Rightarrow> AnimationController" where
  "animate km now c =
     (if \<not> isPlaying c then c
      else
        let elapsed = now - lastFrameTime c in
        if elapsed \<ge> frameInterval c then
          let c1 = c\<lparr>lastFrameTime := now - js_rem elapsed (frameInterval c)\<rparr>;
              c2 = c1\<lparr>currentTime := currentTime c1 + frameInterval c1 / 1000\<rparr>
          in
            if currentTime c2 \<ge> duration c2 then
              if loop c2 then request_frame (frame_updates km (c2\<lparr>currentTime := 0\<rparr>))
              else
                let c3 = pause (c2\<lparr>currentTime := duration c2\<rparr>);
                    c4 = perform_effect (Emit (TimeUpdate (currentTime c3))) c3
                in perform_effect (Emit Finished) c4
            else request_frame (frame_updates km c2)
        else request_frame c)"

definition play :: "KeyframeManager \<Rightarrow> real \<Rightarrow> real \<Rightarrow> AnimationController \<Rightarrow> AnimationController" where
  \<comment> \<open>\<open>now\<close> and \<open>now'\<close> are the two readings of \<open>performance.now()\<close>, the second inside
      the call of \<open>animate\<close>.\<close>
  "play km now now' c =
     (if isPlaying c then c
      else
        let c1 = c\<lparr>isPlaying := True, lastFrameTime := now\<rparr>;
            c2 = perform_effect (EnableCameraControls False) c1;
            c3 = animate km now' c2
        in perform_effect (Emit (Play (currentTime c3))) c3)"

definition stop :: "KeyframeManager \<Rightarrow> AnimationController \<Rightarrow> AnimationController" where
  "stop km c =
     (let c1 = (pause c)\<lparr>currentTime := 0\<rparr>;
          c2 = updateCamera km c1;
          c3 = perform_effect (SetCurrentTime 0) c2
      in perform_effect (Emit (Stop (currentTime c3))) c3)"

definition seekTo :: "KeyframeManager \<Rightarrow> real \<Rightarrow> AnimationController \<Rightarrow> AnimationController" where
  "seekTo km t c =
     (let c1 = c\<lparr>currentTime := max 0 (min (duration c) t)\<rparr>;
          c2 = updateCamera km c1;
          c3 = perform_effect (SetCurrentTime (currentTime c2)) c2
      in perform_effect (Emit (TimeUpdate (currentTime c3))) c3)"

definition stepForward :: "KeyframeManager \<Rightarrow> AnimationController \<Rightarrow> AnimationController" where
  "stepForward km c = seekTo km (currentTime c + 1 / fps c) c"

definition stepBackward :: "KeyframeManager \<Rightarrow> AnimationController \<Rightarrow> AnimationController" where
  "stepBackward km c = seekTo km (currentTime c - 1 / fps c) c"

definition setDuration :: "real \<Rightarrow> AnimationController \<Rightarrow> AnimationController" where
  "setDuration d c = perform_effect (SetTimelineDuration d) (c\<lparr>duration := d\<rparr>)"






text \<open>
  Example clocks. The first is one tick before the end of a one-second timeline at two
  frames per second. The second has been sought to its end, set to loop and started:
  the constructor's clock after \<open>seekTo(10)\<close>, \<open>setLoop(true)\<close> and \<open>play()\<close>. The third
  has a duration that is not a whole number of frames.
\<close>

definition empty_timeline :: KeyframeManager where
  "empty_timeline = new_KeyframeManager blank_store"




section \<open>The export pipeline, client capture (the video exporter)\<close>

text \<open>
  The inline size of the viewer's container is a string: a number of pixels as the export
  sets it, a percentage as the error handler sets it, or any other text (the empty string
  when the page sets no inline size).
\<close>

datatype css_size = Px real | Percent real | Style string

text \<open>
  The errors that end an export, in the order in which the source can throw them. The
  source's messages are text for the user; \<open>RequestRejected\<close> is a request that fails
  without a response.
\<close>

datatype export_error =
  ServerConnectionError
  | ExportCancelled
  | FrameCaptureFailed
  | UploadFailed nat
  | EncodeError
  | RequestRejected

datatype progress_status =
  Ready
  | Preparing
  | ProcessingFrames nat int
  | Encoding
  | Complete
  | ErrorStatus export_error

datatype response = Ok | NotOk | Rejected

record export_settings =
  export_width :: real
  export_height :: real
  export_fps :: int
  export_quality :: string

text \<open>
  What the outside does during one export: the answers of the server, whether the canvas
  delivers an image for a frame, whether the user has pressed cancel by the time the loop
  reaches the check at the top of a frame, and the two clock readings of \<open>play\<close>.
  The timeline is not edited and the clock is not operated while the export waits.
\<close>

record export_env =
  start_response :: response
  session_id :: string
  cancel_pressed :: "nat \<Rightarrow> bool"
  captured :: "nat \<Rightarrow> bool"
  upload_response :: "nat \<Rightarrow> response"
  finish_response :: response
  play_now :: real
  play_now' :: real

text \<open>
  The exporter, the container of the viewer and the playback clock it drives.
  \<open>pathVisualizer\<close> is \<open>None\<close> when no visualizer is set, else its enabled flag; \<open>calls\<close>
  records the exporter's calls on the renderer and the server, in order. The viewer
  exists.
\<close>

record VideoExporter =
  isExporting :: bool
  exportProgress :: real
  statusText :: progress_status
  progressVisible :: bool
  startDisabled :: bool
  pathVisualizer :: "bool option"
  containerWidth :: css_size
  containerHeight :: css_size
  controller :: AnimationController
  calls :: "effect list"

definition call :: "effect \<Rightarrow> VideoExporter \<Rightarrow> VideoExporter" where
  "call e x = x\<lparr>calls := calls x @ [e]\<rparr>"

definition updateProgress :: "real \<Rightarrow> progress_status \<Rightarrow> VideoExporter \<Rightarrow> VideoExporter" where
  "updateProgress percentage status x = x\<lparr>exportProgress := percentage, statusText := status\<rparr>"

text \<open>
  The capture and upload loop, from \<open>frame\<close> on. The result is the error thrown, if any,
  and the state at that point.
\<close>

function capture_loop ::
  "export_env \<Rightarrow> KeyframeManager \<Rightarrow> int \<Rightarrow> string \<Rightarrow> int \<Rightarrow> nat \<Rightarrow> VideoExporter
   \<Rightarrow> export_error option \<times> VideoExporter"
where
  "capture_loop env km rate sessionId totalFrames frame x =
     (if int frame < totalFrames then
        let x0 = (if cancel_pressed env frame then x\<lparr>isExporting := False\<rparr> else x) in
        if \<not> isExporting x0 then (Some ExportCancelled, x0)
        else
          let frameTime = real frame / real_of_int rate;
              cameraData = interpolateAt km frameTime;
              x1 = call (SetCameraPosition cameraData) x0;
              x2 = call (SetFOV (fov (sample_pose cameraData))) x1
          in
            if \<not> captured env frame then (Some FrameCaptureFailed, x2)
            else
              let x3 = call (UploadFrame sessionId frame) x2 in
              (case upload_response env frame of
                Rejected \<Rightarrow> (Some RequestRejected, x3)
              | NotOk \<Rightarrow> (Some (UploadFailed frame), x3)
              | Ok \<Rightarrow>
                  capture_loop env km rate sessionId totalFrames (Suc frame)
                    (updateProgress (real (frame + 1) / real_of_int totalFrames * 80)
                       (ProcessingFrames (frame + 1) totalFrames) x3))
      else (None, x))"
  by pat_completeness auto
termination
  by (relation "measure (\<lambda>(env, km, rate, sessionId, totalFrames, frame, x). nat (totalFrames - int frame))")
    auto

declare capture_loop.simps [simp del]

definition try_block ::
  "export_env \<Rightarrow> export_settings \<Rightarrow> KeyframeManager \<Rightarrow> int \<Rightarrow> VideoExporter
   \<Rightarrow> export_error option \<times> VideoExporter"
where
  "try_block env st km totalFrames x =
     (let x1 = updateProgress 0 Preparing x;
          x2 = call StartSession x1
      in
        (case start_response env of
          Rejected \<Rightarrow> (Some RequestRejected, x2)
        | NotOk \<Rightarrow> (Some ServerConnectionError, x2)
        | Ok \<Rightarrow>
            let sessionId = session_id env;
                wasPlaying = isPlaying (controller x2);
                x3 = (if wasPlaying then x2\<lparr>controller := pause (controller x2)\<rparr> else x2);
                originalWidth = containerWidth x3;
                originalHeight = containerHeight x3;
                x4 = call Resize
                       (x3\<lparr>containerWidth := Px (export_width st),
                           containerHeight := Px (export_height st)\<rparr>)
            in
              (case capture_loop env km (export_fps st) sessionId totalFrames 0 x4 of
                (Some e, x5) \<Rightarrow> (Some e, x5)
              | (None, x5) \<Rightarrow>
                  let x6 = call Resize
                             (x5\<lparr>containerWidth := originalWidth,
                                 containerHeight := originalHeight\<rparr>);
                      c1 = seekTo km 0 (controller x6);
                      c2 = (if wasPlaying then play km (play_now env) (play_now' env) c1 else c1);
                      x7 = updateProgress 80 Encoding (x6\<lparr>controller := c2\<rparr>);
                      x8 = call (FinishSession sessionId (export_fps st) (export_quality st)) x7
                  in
                    (case finish_response env of
                      Rejected \<Rightarrow> (Some RequestRejected, x8)
                    | NotOk \<Rightarrow> (Some EncodeError, x8)
                    | Ok \<Rightarrow> (None, updateProgress 100 Complete (call Download x8))))))"

definition catch_block :: "export_error \<Rightarrow> VideoExporter \<Rightarrow> VideoExporter" where
  "catch_block e x =
     (let x1 = updateProgress 0 (ErrorStatus e) x;
          x2 = x1\<lparr>isExporting := False, startDisabled := False,
                  pathVisualizer := map_option (\<lambda>enabled. True) (pathVisualizer x1)\<rparr>
      in call Resize (x2\<lparr>containerWidth := Percent 100, containerHeight := Percent 100\<rparr>))"

datatype outcome = AlreadyExporting | Succeeded | Failed export_error

definition startExport ::
  "export_env \<Rightarrow> export_settings \<Rightarrow> KeyframeManager \<Rightarrow> VideoExporter \<Rightarrow> outcome \<times> VideoExporter"
where
  "startExport env st km x =
     (if isExporting x then (AlreadyExporting, x)
      else
        let totalFrames = \<lceil>duration (controller x) * real_of_int (export_fps st)\<rceil>;
            x1 = x\<lparr>isExporting := True, progressVisible := True, startDisabled := True,
                   pathVisualizer := map_option (\<lambda>enabled. False) (pathVisualizer x)\<rparr>
        in
          (case try_block env st km totalFrames x1 of
            (None, x2) \<Rightarrow> (Succeeded, x2)
          | (Some e, x2) \<Rightarrow> (Failed e, catch_block e x2)))"

definition export_done :: "VideoExporter \<Rightarrow> VideoExporter" where
  \<comment> \<open>The callback that runs two seconds after a successful export.\<close>
  "export_done x =
     x\<lparr>isExporting := False, startDisabled := False,
       pathVisualizer := map_option (\<lambda>enabled. True) (pathVisualizer x)\<rparr>"




text \<open>
  Example data: an idle exporter on a page whose container is 800 by 600 pixels, the same
  with the clock playing, export settings and two environments, one in which everything
  succeeds and one in which the upload of the first frame is refused.
\<close>

definition idle_exporter :: VideoExporter where
  "idle_exporter =
     \<lparr>isExporting = False, exportProgress = 0, statusText = Ready, progressVisible = False,
      startDisabled = False, pathVisualizer = None, containerWidth = Px 800,
      containerHeight = Px 600, controller = setDuration 1 new_AnimationController, calls = []\<rparr>"

definition playing_exporter :: VideoExporter where
  "playing_exporter =
     idle_exporter\<lparr>controller := play empty_timeline 0 0 (controller idle_exporter)\<rparr>"

definition hd_10fps :: export_settings where
  "hd_10fps =
     \<lparr>export_width = 1920, export_height = 1080, export_fps = 10, export_quality = ''high''\<rparr>"

definition all_well :: export_env where
  "all_well =
     \<lparr>start_response = Ok, session_id = ''s1'', cancel_pressed = (\<lambda>frame. False),
      captured = (\<lambda>frame. True), upload_response = (\<lambda>frame. Ok), finish_response = Ok,
      play_now = 5000, play_now' = 5000\<rparr>"

definition upload_refused :: export_env where
  "upload_refused = all_well\<lparr>upload_response := (\<lambda>frame. NotOk)\<rparr>"

section \<open>Properties of rounding\<close>

lemma round_even_of_int: "round_even (of_int n) = n"
  by (simp add: round_even_def)

lemma round_even_floor: "\<lfloor>y\<rfloor> \<le> round_even y" "round_even y \<le> \<lfloor>y\<rfloor> + 1"
  by (simp_all add: round_even_def Let_def)

lemma round_even_ge: "of_int n \<le> y \<Longrightarrow> n \<le> round_even y"
proof -
  assume "of_int n \<le> y"
  then have "n \<le> \<lfloor>y\<rfloor>" by (simp add: le_floor_iff)
  with round_even_floor(1) [of y] show ?thesis by simp
qed

lemma round_even_le: "y \<le> of_int n \<Longrightarrow> round_even y \<le> n"
proof (cases "y = of_int n")
  case True
  then show ?thesis by (simp add: round_even_of_int)
next
  case False
  assume "y \<le> of_int n"
  with False have "y < of_int n" by simp
  then have "\<lfloor>y\<rfloor> < n" by (simp add: floor_less_iff)
  with round_even_floor(2) [of y] show ?thesis by simp
qed

lemma round_even_mono: "y1 \<le> y2 \<Longrightarrow> round_even y1 \<le> round_even y2"
proof -
  assume le: "y1 \<le> y2"
  then have fl: "\<lfloor>y1\<rfloor> \<le> \<lfloor>y2\<rfloor>" by (rule floor_mono)
  show ?thesis
  proof (cases "\<lfloor>y1\<rfloor> = \<lfloor>y2\<rfloor>")
    case True
    with le show ?thesis by (auto simp add: round_even_def Let_def)
  next
    case False
    with fl have "\<lfloor>y1\<rfloor> + 1 \<le> \<lfloor>y2\<rfloor>" by simp
    with round_even_floor(2) [of y1] round_even_floor(1) [of y2] show ?thesis by simp
  qed
qed

lemma round_even_minus: "round_even (- y) = - round_even y"
proof (cases "y = of_int \<lfloor>y\<rfloor>")
  case True
  then obtain n where "y = of_int n" ..
  then have "- y = of_int (- n)" by simp
  then show ?thesis unfolding \<open>y = of_int n\<close> round_even_of_int
    by (metis round_even_of_int)
next
  case False
  then have c: "\<lceil>y\<rceil> = \<lfloor>y\<rfloor> + 1"
    by (simp add: ceiling_altdef)
  have f: "\<lfloor>- y\<rfloor> = - \<lfloor>y\<rfloor> - 1" using c by (simp add: ceiling_def)
  show ?thesis
    unfolding round_even_def Let_def f by auto
qed

lemma round_even_err: "\<bar>of_int (round_even y) - y\<bar> \<le> 1 / 2"
proof -
  have "of_int \<lfloor>y\<rfloor> \<le> y" "y < of_int \<lfloor>y\<rfloor> + 1" by linarith+
  then show ?thesis unfolding round_even_def Let_def by auto
qed

lemma floor_log2_eq:
  assumes "2 powi e \<le> \<bar>x\<bar>" "\<bar>x\<bar> < 2 powi (e + 1)"
  shows "\<lfloor>log 2 \<bar>x\<bar>\<rfloor> = e"
proof -
  have pos: "0 < \<bar>x\<bar>" using assms(1) by (smt (verit) zero_less_power_int)
  have "(2::real) powr (of_int e) = 2 powi e" "(2::real) powr (of_int e + 1) = 2 powi (e + 1)"
    using powr_real_of_int' [of 2 e] powr_real_of_int' [of 2 "e + 1"] by simp_all
  then show ?thesis using assms pos
    by (subst floor_log_eq_powr_iff) auto
qed

lemma binade:
  assumes "x \<noteq> 0"
  shows "2 powi \<lfloor>log 2 \<bar>x\<bar>\<rfloor> \<le> \<bar>x\<bar>" "\<bar>x\<bar> < 2 powi (\<lfloor>log 2 \<bar>x\<bar>\<rfloor> + 1)"
proof -
  let ?e = "\<lfloor>log 2 \<bar>x\<bar>\<rfloor>"
  have pos: "0 < \<bar>x\<bar>" using assms by simp
  have p: "(2::real) powr (of_int ?e) = 2 powi ?e" "(2::real) powr (of_int ?e + 1) = 2 powi (?e + 1)"
    using powr_real_of_int' [of 2 ?e] powr_real_of_int' [of 2 "?e + 1"] by simp_all
  have "2 powr (of_int ?e) \<le> \<bar>x\<bar> \<and> \<bar>x\<bar> < 2 powr (of_int ?e + 1)"
    using floor_log_eq_powr_iff [of "\<bar>x\<bar>" 2 ?e] pos by simp
  then show "2 powi ?e \<le> \<bar>x\<bar>" "\<bar>x\<bar> < 2 powi (?e + 1)" unfolding p by simp_all
qed

lemma fl_0: "fl 0 = 0"
  by (simp add: fl_def)

lemma fl_eval:
  assumes "2 powi e \<le> \<bar>x\<bar>" "\<bar>x\<bar> < 2 powi (e + 1)"
  shows "fl x = of_int (round_even (x / 2 powi (max e (- 1022) - 52))) * 2 powi (max e (- 1022) - 52)"
proof -
  have "x \<noteq> 0" using assms(1) by (smt (verit) zero_less_power_int abs_zero)
  then show ?thesis by (simp add: fl_def ulp_exp_def floor_log2_eq [OF assms])
qed

lemma ulp_exp_minus: "ulp_exp (- x) = ulp_exp x"
  by (simp add: ulp_exp_def)

lemma fl_minus: "fl (- x) = - fl x"
  by (simp add: fl_def ulp_exp_minus round_even_minus)

lemma fl_nonneg: "0 \<le> x \<Longrightarrow> 0 \<le> fl x"
proof -
  assume "0 \<le> x"
  then have "of_int 0 \<le> x / 2 powi ulp_exp x" by simp
  then have "0 \<le> round_even (x / 2 powi ulp_exp x)" by (rule round_even_ge)
  then show ?thesis by (simp add: fl_def)
qed

lemma fl_nonpos: "x \<le> 0 \<Longrightarrow> fl x \<le> 0"
  using fl_nonneg [of "- x"] by (simp add: fl_minus)

lemma ulp_exp_mono:
  assumes "0 < x" "x \<le> y"
  shows "ulp_exp x \<le> ulp_exp y"
proof -
  from assms have "log 2 \<bar>x\<bar> \<le> log 2 \<bar>y\<bar>" by simp
  then have "\<lfloor>log 2 \<bar>x\<bar>\<rfloor> \<le> \<lfloor>log 2 \<bar>y\<bar>\<rfloor>" by (rule floor_mono)
  then show ?thesis by (simp add: ulp_exp_def)
qed

lemma fl_upper:
  assumes "0 < x"
  shows "fl x \<le> 2 powi (ulp_exp x + 53)"
proof -
  let ?q = "ulp_exp x"
  have "\<lfloor>log 2 \<bar>x\<bar>\<rfloor> + 1 \<le> ?q + 53" by (simp add: ulp_exp_def)
  then have "(2::real) powi (\<lfloor>log 2 \<bar>x\<bar>\<rfloor> + 1) \<le> 2 powi (?q + 53)"
    by (intro power_int_increasing) simp_all
  with binade(2) [of x] assms have "x \<le> 2 powi (?q + 53)" by simp
  also have "\<dots> = 2 powi 53 * 2 powi ?q" by (simp add: power_int_add)
  finally have "x / 2 powi ?q \<le> of_int (2 ^ 53)" by (simp add: pos_divide_le_eq)
  then have "round_even (x / 2 powi ?q) \<le> 2 ^ 53" by (rule round_even_le)
  then have "of_int (round_even (x / 2 powi ?q)) \<le> (2::real) ^ 53"
    by (metis of_int_le_iff of_int_numeral of_int_power)
  then have "of_int (round_even (x / 2 powi ?q)) * (2::real) powi ?q \<le> 2 ^ 53 * 2 powi ?q"
    by (intro mult_right_mono) simp_all
  also have "\<dots> = 2 powi (?q + 53)" by (simp add: power_int_add)
  finally show ?thesis using assms by (simp add: fl_def)
qed

lemma fl_lower:
  assumes "0 < x" "- 1074 < ulp_exp x"
  shows "2 powi (ulp_exp x + 52) \<le> fl x"
proof -
  let ?q = "ulp_exp x"
  from assms(2) have "?q + 52 = \<lfloor>log 2 \<bar>x\<bar>\<rfloor>" by (simp add: ulp_exp_def max_def split: if_splits)
  with binade(1) [of x] assms have "2 powi (?q + 52) \<le> x" by simp
  moreover have "(2::real) powi (?q + 52) = 2 powi 52 * 2 powi ?q" by (simp add: power_int_add)
  ultimately have "of_int (2 ^ 52) \<le> x / 2 powi ?q" by (simp add: pos_le_divide_eq)
  then have "2 ^ 52 \<le> round_even (x / 2 powi ?q)" by (rule round_even_ge)
  then have "(2::real) ^ 52 \<le> of_int (round_even (x / 2 powi ?q))"
    by (metis of_int_le_iff of_int_numeral of_int_power)
  then have "2 ^ 52 * (2::real) powi ?q \<le> of_int (round_even (x / 2 powi ?q)) * 2 powi ?q"
    by (intro mult_right_mono) simp_all
  also have "(2::real) ^ 52 * 2 powi ?q = 2 powi (?q + 52)" by (simp add: power_int_add)
  finally have "(2::real) powi (?q + 52) \<le> of_int (round_even (x / 2 powi ?q)) * 2 powi ?q" .
  moreover have "fl x = of_int (round_even (x / 2 powi ?q)) * 2 powi ?q"
    using assms(1) by (simp add: fl_def)
  ultimately show ?thesis by simp
qed

lemma fl_mono_pos:
  assumes "0 < x" "x \<le> y"
  shows "fl x \<le> fl y"
proof (cases "ulp_exp x = ulp_exp y")
  case True
  let ?q = "ulp_exp y"
  from assms have "x / 2 powi ?q \<le> y / 2 powi ?q" by (simp add: divide_right_mono)
  then have "round_even (x / 2 powi ?q) \<le> round_even (y / 2 powi ?q)" by (rule round_even_mono)
  then have "of_int (round_even (x / 2 powi ?q)) * (2::real) powi ?q \<le> of_int (round_even (y / 2 powi ?q)) * 2 powi ?q"
    by (intro mult_right_mono) simp_all
  with assms True show ?thesis by (simp add: fl_def)
next
  case False
  with ulp_exp_mono [OF assms] have lt: "ulp_exp x < ulp_exp y" by simp
  have "- 1074 \<le> ulp_exp x" by (simp add: ulp_exp_def)
  with lt have "- 1074 < ulp_exp y" by simp
  with assms have "2 powi (ulp_exp y + 52) \<le> fl y" by (intro fl_lower) simp_all
  moreover have "fl x \<le> 2 powi (ulp_exp x + 53)" using assms(1) by (rule fl_upper)
  moreover have "(2::real) powi (ulp_exp x + 53) \<le> 2 powi (ulp_exp y + 52)"
    using lt by (intro power_int_increasing) simp_all
  ultimately show ?thesis by simp
qed

lemma fl_mono: "x \<le> y \<Longrightarrow> fl x \<le> fl y"
proof -
  assume le: "x \<le> y"
  consider "0 < x" | "x \<le> 0" "0 \<le> y" | "y < 0" by linarith
  then show ?thesis
  proof cases
    case 1
    then show ?thesis using le by (rule fl_mono_pos)
  next
    case 2
    then show ?thesis using fl_nonpos [of x] fl_nonneg [of y] by simp
  next
    case 3
    then have "fl (- y) \<le> fl (- x)" using le by (intro fl_mono_pos) simp_all
    then show ?thesis by (simp add: fl_minus)
  qed
qed

lemma fl_err: "\<bar>fl x - x\<bar> \<le> 2 powi ulp_exp x / 2"
proof (cases "x = 0")
  case True
  then show ?thesis by (simp add: fl_def)
next
  case False
  let ?q = "ulp_exp x"
  have "fl x - x = (of_int (round_even (x / 2 powi ?q)) - x / 2 powi ?q) * 2 powi ?q"
    using False by (simp add: fl_def algebra_simps)
  then have "\<bar>fl x - x\<bar> = \<bar>of_int (round_even (x / 2 powi ?q)) - x / 2 powi ?q\<bar> * 2 powi ?q"
    by (simp add: abs_mult)
  also have "\<dots> \<le> 1 / 2 * 2 powi ?q"
    by (intro mult_right_mono round_even_err) simp
  finally show ?thesis by simp
qed

lemma ulp_exp_le:
  assumes "\<bar>x\<bar> < 2 powi (k + 1)" "- 1022 \<le> k" "x \<noteq> 0"
  shows "ulp_exp x \<le> k - 52"
proof -
  note False = assms(3)
  have "\<lfloor>log 2 \<bar>x\<bar>\<rfloor> \<le> k"
  proof (rule ccontr)
    assume "\<not> \<lfloor>log 2 \<bar>x\<bar>\<rfloor> \<le> k"
    then have "k + 1 \<le> \<lfloor>log 2 \<bar>x\<bar>\<rfloor>" by simp
    then have "(2::real) powi (k + 1) \<le> 2 powi \<lfloor>log 2 \<bar>x\<bar>\<rfloor>"
      by (intro power_int_increasing) simp_all
    with binade(1) [OF False] assms(1) show False by simp
  qed
  with assms(2) show ?thesis by (simp add: ulp_exp_def)
qed

lemma fl_close:
  assumes "\<bar>x\<bar> < 2 powi (k + 1)" "- 1022 \<le> k"
  shows "\<bar>fl x - x\<bar> \<le> 2 powi (k - 53)"
proof (cases "x = 0")
  case True
  then show ?thesis by (simp add: fl_0)
next
  case False
  have "(2::real) powi ulp_exp x \<le> 2 powi (k - 52)"
    using ulp_exp_le [OF assms False] by (intro power_int_increasing) simp_all
  also have "\<dots> = 2 * 2 powi (k - 53)"
    using power_int_add [of "2::real" 1 "k - 53"] by simp
  finally show ?thesis using fl_err [of x] by simp
qed

lemma fl_value:
  assumes "2 powi e \<le> \<bar>x\<bar>" "\<bar>x\<bar> < 2 powi (e + 1)" "- 1022 \<le> e"
    "of_int (round_even (x / 2 powi (e - 52))) * 2 powi (e - 52) = y"
  shows "fl x = y"
  using fl_eval [OF assms(1,2)] assms(3,4) by (simp add: max_def)

lemma fl_representable:
  assumes "x = of_int m * 2 powi k" "ulp_exp x \<le> k"
  shows "fl x = x"
proof (cases "x = 0")
  case True
  then show ?thesis by (simp add: fl_0)
next
  case False
  let ?q = "ulp_exp x"
  have "x / 2 powi ?q = of_int m * 2 powi (k - ?q)"
    unfolding assms(1) by (simp add: power_int_diff)
  also have "(2::real) powi (k - ?q) = 2 ^ nat (k - ?q)"
    using assms(2) by (simp add: power_int_def)
  finally have "x / 2 powi ?q = of_int (m * 2 ^ nat (k - ?q))" by simp
  then have "round_even (x / 2 powi ?q) = m * 2 ^ nat (k - ?q)"
    by (simp only: round_even_of_int)
  then have "fl x = of_int (m * 2 ^ nat (k - ?q)) * 2 powi ?q"
    using False by (simp add: fl_def)
  also have "\<dots> = x / 2 powi ?q * 2 powi ?q"
    using \<open>x / 2 powi ?q = of_int (m * 2 ^ nat (k - ?q))\<close> by simp
  finally show ?thesis by simp
qed

lemma fl_dyadic:
  assumes "\<bar>m\<bar> < 2 ^ 53" "j \<le> 1074"
  shows "fl (of_int m / 2 ^ j) = of_int m / 2 ^ j"
proof (cases "m = 0")
  case True
  then show ?thesis by (simp add: fl_0)
next
  case False
  let ?x = "real_of_int m / 2 ^ j"
  have x: "?x = of_int m * 2 powi (- int j)" by (simp add: power_int_minus field_simps)
  have "\<bar>real_of_int m\<bar> < 2 ^ 53" using assms(1)
    by (metis of_int_abs of_int_less_iff of_int_numeral of_int_power)
  then have "\<bar>?x\<bar> < 2 ^ 53 / 2 ^ j" by (simp add: divide_strict_right_mono)
  also have "\<dots> = 2 powi (52 - int j + 1)" by (simp add: power_int_diff)
  finally have "ulp_exp ?x \<le> 52 - int j - 52"
    using assms(2) False by (intro ulp_exp_le) simp_all
  then show ?thesis using x by (intro fl_representable [of _ m "- int j"]) simp_all
qed

lemma fl_of_int: "\<bar>m\<bar> < 2 ^ 53 \<Longrightarrow> fl (of_int m) = of_int m"
  using fl_dyadic [of m 0] by simp

lemma fl_numeral: "(numeral n :: int) < 2 ^ 53 \<Longrightarrow> fl (numeral n) = numeral n"
  using fl_of_int [of "numeral n"] by simp

lemma fl_neg_numeral: "(numeral n :: int) < 2 ^ 53 \<Longrightarrow> fl (- numeral n) = - numeral n"
  using fl_of_int [of "- numeral n"] by simp

lemma fl_1: "fl 1 = 1"
  using fl_of_int [of 1] by simp

lemma fl_idem_pos:
  assumes "0 < x"
  shows "fl (fl x) = fl x"
proof -
  let ?q = "ulp_exp x"
  let ?n = "round_even (x / 2 powi ?q)"
  have y: "fl x = of_int ?n * 2 powi ?q" using assms by (simp add: fl_def)
  have q: "- 1074 \<le> ?q" by (simp add: ulp_exp_def)
  have nonneg: "0 \<le> fl x" using assms by (intro fl_nonneg) simp
  show ?thesis
  proof (cases "fl x = 0")
    case True
    then show ?thesis by (simp add: fl_0)
  next
    case nz: False
    show ?thesis
    proof (cases "fl x < 2 powi (?q + 53)")
      case True
      with nonneg have "\<bar>fl x\<bar> < 2 powi ((?q + 52) + 1)" by (simp add: add.commute add.left_commute)
      then have "ulp_exp (fl x) \<le> (?q + 52) - 52" using q nz by (intro ulp_exp_le) simp_all
      then show ?thesis using y by (intro fl_representable [of _ ?n ?q]) simp_all
    next
      case False
      with fl_upper [OF assms] have top: "fl x = 2 powi (?q + 53)" by simp
      have "(2::real) powi (?q + 53) < 2 powi ((?q + 53) + 1)"
        by (intro power_int_strict_increasing) simp_all
      with top have "\<bar>fl x\<bar> < 2 powi ((?q + 53) + 1)" by simp
      then have "ulp_exp (fl x) \<le> (?q + 53) - 52" using q nz by (intro ulp_exp_le) simp_all
      then show ?thesis using top by (intro fl_representable [of _ 1 "?q + 53"]) simp_all
    qed
  qed
qed

lemma fl_idem: "fl (fl x) = fl x"
proof -
  consider "0 < x" | "x = 0" | "0 < - x" by linarith
  then show ?thesis
  proof cases
    case 1
    then show ?thesis by (rule fl_idem_pos)
  next
    case 2
    then show ?thesis by (simp add: fl_0)
  next
    case 3
    then have "fl (fl (- x)) = fl (- x)" by (rule fl_idem_pos)
    then show ?thesis by (simp add: fl_minus)
  qed
qed


lemma fl_abs_le: "fl c = c \<Longrightarrow> \<bar>x\<bar> \<le> c \<Longrightarrow> \<bar>fl x\<bar> \<le> c"
proof -
  assume c: "fl c = c" and x: "\<bar>x\<bar> \<le> c"
  from x have "fl x \<le> fl c" by (intro fl_mono) simp
  moreover from x have "fl (- c) \<le> fl x" by (intro fl_mono) simp
  ultimately show ?thesis using c by (simp add: fl_minus abs_le_iff)
qed

lemma powi_shift: "(2::real) powi (k + int n) = 2 powi k * 2 ^ n"
  by (simp add: power_int_add)


section \<open>Properties of the interpolation library\<close>

text \<open>
  Values of the rounding at the numbers of the examples: 0.7, 0.1 and their linear
  interpolation, the control point 0.14, the default control points 0.42 and 0.58, and
  the two thresholds of the Newton loop.
\<close>

lemma lerp_values:
  "fl (7 / 10) = 3152519739159347 / 4503599627370496"
  "fl (1 / 10) = 3602879701896397 / 36028797018963968"
  "fl (- (21617278211378379 / 36028797018963968)) = - (5404319552844595 / 9007199254740992)"
  "fl (- (5404319552844595 / 9007199254740992)) = - (5404319552844595 / 9007199254740992)"
  "fl (900719925474099 / 9007199254740992) = 900719925474099 / 9007199254740992"
proof -
  show "fl (7 / 10) = 3152519739159347 / 4503599627370496"
    by (rule fl_value [of "- 1"]) (simp_all add: round_even_def)
  show "fl (1 / 10) = 3602879701896397 / 36028797018963968"
    by (rule fl_value [of "- 4"]) (simp_all add: round_even_def)
  show "fl (- (21617278211378379 / 36028797018963968)) = - (5404319552844595 / 9007199254740992)"
    by (rule fl_value [of "- 1"]) (simp_all add: round_even_def)
  show "fl (- (5404319552844595 / 9007199254740992)) = - (5404319552844595 / 9007199254740992)"
    by (rule fl_value [of "- 1"]) (simp_all add: round_even_def)
  show "fl (900719925474099 / 9007199254740992) = 900719925474099 / 9007199254740992"
    by (rule fl_value [of "- 4"]) (simp_all add: round_even_def)
qed

lemma bezier_values:
  "fl (7 / 50) = 1261007895663739 / 9007199254740992"
  "fl (3783023686991217 / 9007199254740992) = 3783023686991217 / 9007199254740992"
  "fl (- (1261007895663739 / 9007199254740992)) = - (1261007895663739 / 9007199254740992)"
  "fl (- (3783023686991217 / 9007199254740992)) = - (3783023686991217 / 9007199254740992)"
  "fl (- (3783023686991217 / 4503599627370496)) = - (3783023686991217 / 4503599627370496)"
  "fl (5224175567749775 / 9007199254740992) = 5224175567749775 / 9007199254740992"
  "fl (12790222941732209 / 9007199254740992) = 799388933858263 / 562949953421312"
  "fl (1 / 1000) = 1152921504606847 / 1152921504606846976"
  "fl (799388933858263 / 562949953421312) = 799388933858263 / 562949953421312"
  "fl (2612087783874887 / 4503599627370496) = 2612087783874887 / 4503599627370496"
  "fl (9007199254740991 / 9007199254740992) = 9007199254740991 / 9007199254740992"
proof -
  show "fl (7 / 50) = 1261007895663739 / 9007199254740992"
    by (rule fl_value [of "- 3"]) (simp_all add: round_even_def)
  show "fl (3783023686991217 / 9007199254740992) = 3783023686991217 / 9007199254740992"
    by (rule fl_value [of "- 2"]) (simp_all add: round_even_def)
  show "fl (- (1261007895663739 / 9007199254740992)) = - (1261007895663739 / 9007199254740992)"
    by (rule fl_value [of "- 3"]) (simp_all add: round_even_def)
  show "fl (- (3783023686991217 / 9007199254740992)) = - (3783023686991217 / 9007199254740992)"
    by (rule fl_value [of "- 2"]) (simp_all add: round_even_def)
  show "fl (- (3783023686991217 / 4503599627370496)) = - (3783023686991217 / 4503599627370496)"
    by (rule fl_value [of "- 1"]) (simp_all add: round_even_def)
  show "fl (5224175567749775 / 9007199254740992) = 5224175567749775 / 9007199254740992"
    by (rule fl_value [of "- 1"]) (simp_all add: round_even_def)
  show "fl (12790222941732209 / 9007199254740992) = 799388933858263 / 562949953421312"
    by (rule fl_value [of "0"]) (simp_all add: round_even_def)
  show "fl (1 / 1000) = 1152921504606847 / 1152921504606846976"
    by (rule fl_value [of "- 10"]) (simp_all add: round_even_def)
  show "fl (799388933858263 / 562949953421312) = 799388933858263 / 562949953421312"
    by (rule fl_value [of "0"]) (simp_all add: round_even_def)
  show "fl (2612087783874887 / 4503599627370496) = 2612087783874887 / 4503599627370496"
    by (rule fl_value [of "- 1"]) (simp_all add: round_even_def)
  show "fl (9007199254740991 / 9007199254740992) = 9007199254740991 / 9007199254740992"
    by (rule fl_value [of "- 1"]) (simp_all add: round_even_def)
qed

lemma default_values:
  "fl (21 / 50) = 7566047373982433 / 18014398509481984"
  "fl (29 / 50) = 5224175567749775 / 9007199254740992"
  "fl (22698142121947299 / 18014398509481984) = 5674535530486825 / 4503599627370496"
  "fl (2882303761517117 / 18014398509481984) = 2882303761517117 / 18014398509481984"
  "fl (8646911284551351 / 18014398509481984) = 8646911284551351 / 18014398509481984"
  "fl (- (14051230837395949 / 18014398509481984)) = - (3512807709348987 / 4503599627370496)"
  "fl (- (1170935903116329 / 4503599627370496)) = - (1170935903116329 / 4503599627370496)"
  "fl (1170935903116329 / 2251799813685248) = 1170935903116329 / 2251799813685248"
  "fl (1 / 1000) = 1152921504606847 / 1152921504606846976"
proof -
  show "fl (21 / 50) = 7566047373982433 / 18014398509481984"
    by (rule fl_value [of "- 2"]) (simp_all add: round_even_def)
  show "fl (29 / 50) = 5224175567749775 / 9007199254740992"
    by (rule fl_value [of "- 1"]) (simp_all add: round_even_def)
  show "fl (22698142121947299 / 18014398509481984) = 5674535530486825 / 4503599627370496"
    by (rule fl_value [of "0"]) (simp_all add: round_even_def)
  show "fl (2882303761517117 / 18014398509481984) = 2882303761517117 / 18014398509481984"
    by (rule fl_value [of "- 3"]) (simp_all add: round_even_def)
  show "fl (8646911284551351 / 18014398509481984) = 8646911284551351 / 18014398509481984"
    by (rule fl_value [of "- 2"]) (simp_all add: round_even_def)
  show "fl (- (14051230837395949 / 18014398509481984)) = - (3512807709348987 / 4503599627370496)"
    by (rule fl_value [of "- 1"]) (simp_all add: round_even_def)
  show "fl (- (1170935903116329 / 4503599627370496)) = - (1170935903116329 / 4503599627370496)"
    by (rule fl_value [of "- 2"]) (simp_all add: round_even_def)
  show "fl (1170935903116329 / 2251799813685248) = 1170935903116329 / 2251799813685248"
    by (rule fl_value [of "- 1"]) (simp_all add: round_even_def)
  show "fl (1 / 1000) = 1152921504606847 / 1152921504606846976"
    by (rule fl_value [of "- 10"]) (simp_all add: round_even_def)
qed

lemma threshold_values:
  "fl (1 / 1000) = 1152921504606847 / 1152921504606846976"
  "fl (1 / 1000000) = 4722366482869645 / 4722366482869645213696"
proof -
  show "fl (1 / 1000) = 1152921504606847 / 1152921504606846976"
    by (rule fl_value [of "- 10"]) (simp_all add: round_even_def)
  show "fl (1 / 1000000) = 4722366482869645 / 4722366482869645213696"
    by (rule fl_value [of "- 20"]) (simp_all add: round_even_def)
qed

lemma sampleCurve_0: "sampleCurve a b c 0 = 0"
  by (simp add: sampleCurve_def fl_0)

lemma sampleCurve_1: "sampleCurve a b c 1 = fl (fl (fl a + b) + c)"
  by (simp add: sampleCurve_def fl_idem)

lemma newton_0: "newton ax bx cx 0 n 0 = 0"
  by (cases n) (simp_all add: Let_def sampleCurve_0 fl_0 threshold_values)

lemma bezier_0: "bezier 0 p1 p2 p3 p4 = 0"
  by (simp add: bezier_def Let_def newton_0 sampleCurve_0)

lemma bezier_default_1: "bezier 1 (fl (21 / 50)) 0 (fl (29 / 50)) 1 = 1"
  by (simp add: bezier_def Let_def eval_nat_numeral sampleCurve_def fl_0 fl_1 fl_numeral
      fl_neg_numeral default_values threshold_values)

lemma pow3_values: "pow3 0 = 0" "pow3 1 = 1"
  by (simp_all add: pow3_def fl_0 fl_1)

lemma easedT_0: "easedT type 0 = 0"
  by (simp add: easedT_def linear_easing_def easeIn_def easeOut_def easeInOut_def bezier_0
      pow3_values fl_0 fl_1)

lemma easedT_1: "easedT type 1 = 1"
  by (simp add: easedT_def linear_easing_def easeIn_def easeOut_def easeInOut_def
      bezier_default_1 pow3_values fl_0 fl_1 fl_neg_numeral)

lemma interpolate_0: "fl a = a \<Longrightarrow> interpolate a b 0 type = a"
  by (simp add: interpolate_def easedT_0 fl_0)

lemma interpolate_1: "interpolate a b 1 type = fl (a + fl (b - a))"
  by (simp add: interpolate_def easedT_1 fl_idem)

lemma interpolate_1_exact: "fl b = b \<Longrightarrow> fl (b - a) = b - a \<Longrightarrow> interpolate a b 1 type = b"
  by (simp add: interpolate_1)

lemma lerp_example: "interpolate (fl (7 / 10)) (fl (1 / 10)) 1 ''linear'' = 900719925474099 / 9007199254740992"
  by (simp add: interpolate_def easedT_def linear_easing_def lerp_values)

lemma bezier_example: "bezier 1 0 (fl (14 / 100)) 0 0 = 9007199254740991 / 9007199254740992"
  by (simp add: bezier_def Let_def eval_nat_numeral sampleCurve_def fl_0 fl_1 fl_numeral
      fl_neg_numeral bezier_values threshold_values)

lemma interpolate_1_close:
  assumes "\<bar>a\<bar> \<le> 2 powi k" "\<bar>b\<bar> \<le> 2 powi k" "- 1022 \<le> k"
  shows "\<bar>interpolate a b 1 type - b\<bar> \<le> 2 powi (k - 51)"
proof -
  define p :: real where "p = 2 powi (k - 53)"
  have p: "0 < p" by (simp add: p_def)
  have pk: "2 powi k = 2 ^ 53 * p" "2 powi (k + 1) = 2 ^ 54 * p" "2 powi (k + 2) = 2 ^ 55 * p"
    "2 powi (k - 52) = 2 * p" "2 powi (k - 51) = 4 * p"
    using powi_shift [of "k - 53" 53] powi_shift [of "k - 53" 54] powi_shift [of "k - 53" 55]
      powi_shift [of "k - 53" 1] powi_shift [of "k - 53" 2]
    by (simp_all add: p_def add.commute mult.commute)
  define d where "d = fl (b - a)"
  have "\<bar>b - a\<bar> < 2 powi ((k + 1) + 1)"
    using assms(1,2) p unfolding pk(1) by (simp add: pk(3) add.assoc)
  then have "\<bar>d - (b - a)\<bar> \<le> 2 powi ((k + 1) - 53)"
    unfolding d_def using assms(3) by (intro fl_close) simp_all
  then have e1: "\<bar>d - (b - a)\<bar> \<le> 2 * p" using pk(4) by (simp add: algebra_simps)
  then have "\<bar>a + d\<bar> \<le> \<bar>b\<bar> + 2 * p" by linarith
  then have "\<bar>a + d\<bar> < 2 powi (k + 1)"
    using assms(2) p by (simp add: pk)
  then have "\<bar>fl (a + d) - (a + d)\<bar> \<le> 2 powi (k - 53)"
    using assms(3) by (intro fl_close) simp_all
  then have e2: "\<bar>fl (a + d) - (a + d)\<bar> \<le> p" by (simp add: p_def)
  have "interpolate a b 1 type = fl (a + d)" by (simp add: interpolate_1 d_def)
  with e1 e2 show ?thesis by (simp add: pk)
qed

lemma curve_at_1:
  assumes "\<bar>b\<bar> \<le> 36" "\<bar>c\<bar> \<le> 12"
  shows "\<bar>sampleCurve (fl (fl (1 - c) - b)) b c 1 - 1\<bar> \<le> 1 / 2 ^ 46"
proof -
  define v where "v = fl (1 - c)"
  define a where "a = fl (v - b)"
  define w where "w = fl (a + b)"
  have "\<bar>1 - c\<bar> \<le> 13" using assms(2) by linarith
  then have v: "\<bar>v\<bar> \<le> 13"
    unfolding v_def by (intro fl_abs_le) (simp_all add: fl_numeral)
  from \<open>\<bar>1 - c\<bar> \<le> 13\<close> have e1: "\<bar>v - (1 - c)\<bar> \<le> 2 powi (3 - 53)"
    unfolding v_def by (intro fl_close) simp_all
  from v assms(1) have "\<bar>v - b\<bar> \<le> 49" by linarith
  then have a: "\<bar>a\<bar> \<le> 49"
    unfolding a_def by (intro fl_abs_le) (simp_all add: fl_numeral)
  from \<open>\<bar>v - b\<bar> \<le> 49\<close> have e2: "\<bar>a - (v - b)\<bar> \<le> 2 powi (5 - 53)"
    unfolding a_def by (intro fl_close) simp_all
  from a assms(1) have "\<bar>a + b\<bar> \<le> 85" by linarith
  then have e3: "\<bar>w - (a + b)\<bar> \<le> 2 powi (6 - 53)"
    unfolding w_def by (intro fl_close) simp_all
  have "\<bar>w + c - 1\<bar> \<le> \<bar>v - (1 - c)\<bar> + \<bar>a - (v - b)\<bar> + \<bar>w - (a + b)\<bar>" by linarith
  with e1 e2 e3 have near: "\<bar>w + c - 1\<bar> \<le> 1 / 2 ^ 50 + 1 / 2 ^ 48 + 1 / 2 ^ 47" by simp
  then have near': "\<bar>w + c - 1\<bar> \<le> 13 / 2 ^ 50" by simp
  also have "\<dots> \<le> 1 / 2" by simp
  finally have "\<bar>w + c\<bar> < 2" by linarith
  then have "\<bar>w + c\<bar> < 2 powi (0 + 1)" by simp
  then have "\<bar>fl (w + c) - (w + c)\<bar> \<le> 2 powi (0 - 53)" by (intro fl_close) simp_all
  then have "\<bar>fl (w + c) - (w + c)\<bar> \<le> 1 / 2 ^ 53" by simp
  with near' have "\<bar>fl (w + c) - 1\<bar> \<le> 13 / 2 ^ 50 + 1 / 2 ^ 53" by linarith
  also have "\<dots> \<le> 1 / 2 ^ 46" by simp
  finally have "\<bar>fl (w + c) - 1\<bar> \<le> 1 / 2 ^ 46" .
  moreover have "sampleCurve a b c 1 = fl (w + c)"
    by (simp add: sampleCurve_1 w_def a_def fl_idem)
  ultimately show ?thesis by (simp add: a_def v_def)
qed

lemma coefficient_bounds:
  assumes "\<bar>p\<bar> \<le> 4" "\<bar>q\<bar> \<le> 4"
  shows "\<bar>fl (3 * p)\<bar> \<le> 12" "\<bar>fl (fl (3 * fl (q - p)) - fl (3 * p))\<bar> \<le> 36"
proof -
  from assms(1) show c: "\<bar>fl (3 * p)\<bar> \<le> 12" by (intro fl_abs_le) (simp_all add: fl_numeral)
  from assms have "\<bar>fl (q - p)\<bar> \<le> 8" by (intro fl_abs_le) (simp_all add: fl_numeral)
  then have "\<bar>fl (3 * fl (q - p))\<bar> \<le> 24" by (intro fl_abs_le) (simp_all add: fl_numeral)
  with c show "\<bar>fl (fl (3 * fl (q - p)) - fl (3 * p))\<bar> \<le> 36"
    by (intro fl_abs_le) (simp_all add: fl_numeral)
qed

lemma bezier_1_close:
  assumes "\<bar>p1\<bar> \<le> 4" "\<bar>p2\<bar> \<le> 4" "\<bar>p3\<bar> \<le> 4" "\<bar>p4\<bar> \<le> 4"
  shows "\<bar>bezier 1 p1 p2 p3 p4 - 1\<bar> \<le> 1 / 2 ^ 46"
proof -
  define cx where "cx = fl (3 * p1)"
  define bx where "bx = fl (fl (3 * fl (p3 - p1)) - cx)"
  define ax where "ax = fl (fl (1 - cx) - bx)"
  define cy where "cy = fl (3 * p2)"
  define b_y where "b_y = fl (fl (3 * fl (p4 - p2)) - cy)"
  define ay where "ay = fl (fl (1 - cy) - b_y)"
  have x: "\<bar>sampleCurve ax bx cx 1 - 1\<bar> \<le> 1 / 2 ^ 46"
    unfolding ax_def using coefficient_bounds [OF assms(1,3)]
    by (intro curve_at_1) (simp_all add: bx_def cx_def)
  have y: "\<bar>sampleCurve ay b_y cy 1 - 1\<bar> \<le> 1 / 2 ^ 46"
    unfolding ay_def using coefficient_bounds [OF assms(2,4)]
    by (intro curve_at_1) (simp_all add: b_y_def cy_def)
  have "fl (1 / 2 ^ 46) = 1 / 2 ^ 46" using fl_dyadic [of 1 46] by simp
  with x have "\<bar>fl (sampleCurve ax bx cx 1 - 1)\<bar> \<le> 1 / 2 ^ 46" by (intro fl_abs_le) simp_all
  then have "\<bar>fl (sampleCurve ax bx cx 1 - 1)\<bar> < fl (1 / 1000)" by (simp add: threshold_values)
  then have "newton ax bx cx 1 8 1 = 1" by (simp add: eval_nat_numeral Let_def)
  then have "bezier 1 p1 p2 p3 p4 = sampleCurve ay b_y cy 1"
    by (simp add: bezier_def Let_def cx_def bx_def ax_def cy_def b_y_def ay_def)
  with y show ?thesis by simp
qed

text \<open>
  C8, as stated, fails at \<open>t = 1\<close>. The source computes \<open>a + (b - a) * 1\<close> in doubles, and
  the difference \<open>b - a\<close> is rounded: from 0.7 to 0.1 the result is 0.09999999999999998,
  not 0.1. And with the control points 0, 0.14, 0, 0 the cubic Bezier easing maps 1 to
  0.9999999999999999, not to 1.
\<close>

theorem endpoint_counterexample:
  "fl 0.1 = 3602879701896397 / 36028797018963968
   \<and> interpolate (fl 0.7) (fl 0.1) 1 ''linear'' = 900719925474099 / 9007199254740992
   \<and> interpolate (fl 0.7) (fl 0.1) 1 ''linear'' \<noteq> fl 0.1
   \<and> bezier 1 0 (fl 0.14) 0 0 = 9007199254740991 / 9007199254740992
   \<and> bezier 1 0 (fl 0.14) 0 0 \<noteq> 1"
proof -
  have b: "fl 0.1 = 3602879701896397 / 36028797018963968"
    by (simp add: lerp_values)
  have l: "interpolate (fl 0.7) (fl 0.1) 1 ''linear'' = 900719925474099 / 9007199254740992"
    using lerp_example by simp
  have z: "bezier 1 0 (fl 0.14) 0 0 = 9007199254740991 / 9007199254740992"
    using bezier_example by simp
  have ln: "interpolate (fl 0.7) (fl 0.1) 1 ''linear'' \<noteq> fl 0.1"
  proof
    assume eq: "interpolate (fl 0.7) (fl 0.1) 1 ''linear'' = fl 0.1"
    have "900719925474099 / 9007199254740992 = fl 0.1"
      by (rule trans [OF l [symmetric] eq])
    then show False unfolding b by simp
  qed
  have zn: "bezier 1 0 (fl 0.14) 0 0 \<noteq> 1"
    unfolding z by simp
  show ?thesis by (intro conjI) (fact b, fact l, fact ln, fact z, fact zn)
qed

text \<open>
  C8, amended. For all doubles \<open>a\<close>, \<open>b\<close> whose difference does not overflow and every
  easing kind, \<open>interpolate a b 0 = a\<close>, and \<open>interpolate a b 1\<close> is the double sum of \<open>a\<close>
  and the double difference \<open>b - a\<close>: it is \<open>b\<close> when that difference is exact, and for
  \<open>a\<close>, \<open>b\<close> of magnitude at most \<open>2 ^ k\<close> it differs from \<open>b\<close> by at most \<open>2 ^ (k - 51)\<close>.
  The cubic Bezier easing maps 0 to 0 for any four control points (short of overflow);
  it maps 1 to 1 for the default control points 0.42, 0, 0.58, 1 of the easing kind, and
  to a number within \<open>2 ^ -46\<close> of 1 for control points of magnitude at most 4.
\<close>

theorem endpoints_up_to_rounding:
  "(type \<in> set easing_kinds \<and> fl a = a \<and> fl b = b \<and> \<bar>b - a\<bar> < 2 ^ 1023 \<longrightarrow>
      interpolate a b 0 type = a
      \<and> interpolate a b 1 type = fl (a + fl (b - a))
      \<and> (fl (b - a) = b - a \<longrightarrow> interpolate a b 1 type = b))
   \<and> (type \<in> set easing_kinds \<and> \<bar>a\<bar> \<le> 2 powi k \<and> \<bar>b\<bar> \<le> 2 powi k \<and> - 1022 \<le> k \<and> k \<le> 1022 \<longrightarrow>
      \<bar>interpolate a b 1 type - b\<bar> \<le> 2 powi (k - 51))
   \<and> (\<bar>p1\<bar> \<le> 2 ^ 1000 \<and> \<bar>p2\<bar> \<le> 2 ^ 1000 \<and> \<bar>p3\<bar> \<le> 2 ^ 1000 \<and> \<bar>p4\<bar> \<le> 2 ^ 1000 \<longrightarrow>
      bezier 0 p1 p2 p3 p4 = 0)
   \<and> (\<bar>p1\<bar> \<le> 4 \<and> \<bar>p2\<bar> \<le> 4 \<and> \<bar>p3\<bar> \<le> 4 \<and> \<bar>p4\<bar> \<le> 4 \<longrightarrow>
      \<bar>bezier 1 p1 p2 p3 p4 - 1\<bar> \<le> 1 / 2 ^ 46)
   \<and> bezier 1 (fl 0.42) 0 (fl 0.58) 1 = 1"
proof -
  have a: "interpolate a b 0 type = a \<and> interpolate a b 1 type = fl (a + fl (b - a))
      \<and> (fl (b - a) = b - a \<longrightarrow> interpolate a b 1 type = b)"
    if "fl a = a" "fl b = b"
    using that by (simp add: interpolate_0 interpolate_1)
  have b: "\<bar>interpolate a b 1 type - b\<bar> \<le> 2 powi (k - 51)"
    if "\<bar>a\<bar> \<le> 2 powi k" "\<bar>b\<bar> \<le> 2 powi k" "- 1022 \<le> k"
    using that by (rule interpolate_1_close)
  have c: "\<bar>bezier 1 p1 p2 p3 p4 - 1\<bar> \<le> 1 / 2 ^ 46"
    if "\<bar>p1\<bar> \<le> 4" "\<bar>p2\<bar> \<le> 4" "\<bar>p3\<bar> \<le> 4" "\<bar>p4\<bar> \<le> 4"
    using that by (rule bezier_1_close)
  have d: "bezier 1 (fl 0.42) 0 (fl 0.58) 1 = 1"
    using bezier_default_1 by simp
  from a b c d bezier_0 [of p1 p2 p3 p4] show ?thesis by blast
qed

theorem endpoints_up_to_rounding_witness:
  "''easeInOut'' \<in> set easing_kinds
   \<and> interpolate 500 1000 0 ''easeInOut'' = 500
   \<and> interpolate 500 1000 1 ''easeInOut'' = 1000
   \<and> \<bar>interpolate (fl 0.7) (fl 0.1) 1 ''easeInOut'' - fl 0.1\<bar> \<le> 1 / 2 ^ 51
   \<and> bezier 0 0 (fl 0.14) 0 0 = 0
   \<and> \<bar>bezier 1 0 (fl 0.14) 0 0 - 1\<bar> \<le> 1 / 2 ^ 46"
proof -
  have k: "''easeInOut'' \<in> set easing_kinds"
    by (simp add: easing_kinds_def)
  have h: "fl 500 = 500" "fl 1000 = 1000" "\<bar>1000 - 500\<bar> < (2::real) ^ 1023"
    "fl (1000 - 500) = 1000 - 500"
    by (simp_all add: fl_numeral)
  note exact = endpoints_up_to_rounding [of "''easeInOut''" 500 1000 0 0 "fl 0.14" 0 0,
      THEN conjunct1, rule_format, OF conjI [OF k conjI [OF h(1) conjI [OF h(2) h(3)]]]]
  from exact have e0: "interpolate 500 1000 0 ''easeInOut'' = 500"
    by blast
  from exact h(4) have e1: "interpolate 500 1000 1 ''easeInOut'' = 1000"
    by blast
  have m: "\<bar>fl 0.7\<bar> \<le> 2 powi 0" "\<bar>fl 0.1\<bar> \<le> 2 powi 0" "- 1022 \<le> (0::int)" "(0::int) \<le> 1022"
    by (simp_all add: lerp_values)
  note near = endpoints_up_to_rounding [of "''easeInOut''" "fl 0.7" "fl 0.1" 0 0 "fl 0.14" 0 0,
      THEN conjunct2, THEN conjunct1, rule_format,
      OF conjI [OF k conjI [OF m(1) conjI [OF m(2) conjI [OF m(3) m(4)]]]]]
  from near have e2: "\<bar>interpolate (fl 0.7) (fl 0.1) 1 ''easeInOut'' - fl 0.1\<bar> \<le> 1 / 2 ^ 51"
    by simp
  have p: "\<bar>0::real\<bar> \<le> 2 ^ 1000" "\<bar>fl 0.14\<bar> \<le> 2 ^ 1000" "\<bar>0::real\<bar> \<le> 4" "\<bar>fl 0.14\<bar> \<le> 4"
    by (simp_all add: bezier_values)
  note at0 = endpoints_up_to_rounding [of "''easeInOut''" 500 1000 0 0 "fl 0.14" 0 0,
      THEN conjunct2, THEN conjunct2, THEN conjunct1, rule_format,
      OF conjI [OF p(1) conjI [OF p(2) conjI [OF p(1) p(1)]]]]
  note at1 = endpoints_up_to_rounding [of "''easeInOut''" 500 1000 0 0 "fl 0.14" 0 0,
      THEN conjunct2, THEN conjunct2, THEN conjunct2, THEN conjunct1, rule_format,
      OF conjI [OF p(3) conjI [OF p(4) conjI [OF p(3) p(3)]]]]
  show ?thesis by (intro conjI) (fact k, fact e0, fact e1, fact e2, fact at0, fact at1)
qed

section \<open>Angle interpolation\<close>








lemma below180_stuck:
  assumes "a < - 180" "fl (a + 360) = a"
  shows "below180 a = None"
proof (cases "below180 a")
  case None
  then show ?thesis .
next
  case (Some r)
  have "a \<noteq> a"
  proof (rule below180.raw_induct [where P = "\<lambda>x y. x \<noteq> a", OF _ Some])
    fix below :: "real \<Rightarrow> real option" and angle y
    assume IH: "\<And>x y. below x = Some y \<Longrightarrow> x \<noteq> a"
      and eq: "(if angle < - 180 then below (fl (angle + 360)) else Some angle) = Some y"
    show "angle \<noteq> a"
    proof
      assume "angle = a"
      with eq assms have "below a = Some y" by simp
      then have "a \<noteq> a" by (rule IH)
      then show False by simp
    qed
  qed
  then show ?thesis by simp
qed
























section \<open>The keyframe array stays sorted\<close>

lemma keyframe_values_emit [simp]: "keyframe_values (emit e m) = keyframe_values m"
  by (simp add: keyframe_values_def emit_def)

lemma keyframes_emit [simp]: "keyframes (emit e m) = keyframes m"
  and objects_emit [simp]: "objects (emit e m) = objects m"
  and next_ref_emit [simp]: "next_ref (emit e m) = next_ref m"
  by (simp_all add: emit_def)

lemma sorted_by_time_emit [simp]: "sorted_by_time (emit e m) = sorted_by_time m"
  by (simp add: sorted_by_time_def)

lemma map_time_values: "map time (keyframe_values m) = map (\<lambda>r. time (objects m r)) (keyframes m)"
  by (simp add: keyframe_values_def)

lemma sorted_sortKeyframes: "sorted_by_time (sortKeyframes m)"
  by (simp add: sorted_by_time_def map_time_values sortKeyframes_def)

lemma sortKeyframes_extend:
  "sortKeyframes (m\<lparr>keyframes := ks\<rparr>) = (m\<lparr>keyframes := sort_key (\<lambda>r. time (objects m r)) ks\<rparr>)"
  by (simp add: sortKeyframes_def)

lemma sorted_addKeyframe: "sorted_by_time (addKeyframe r m)"
  by (simp add: addKeyframe_def Let_def sorted_sortKeyframes)

lemma sorted_updateKeyframe: "sorted_by_time (updateKeyframe r n m)"
  by (simp add: updateKeyframe_def Let_def sorted_sortKeyframes)

lemma sorted_removeKeyframe:
  "sorted_by_time m \<Longrightarrow> sorted_by_time (snd (removeKeyframe r m))"
  by (simp add: removeKeyframe_def Let_def sorted_by_time_def map_time_values sorted_map_remove1)

lemma sorted_clear: "sorted_by_time (clear m)"
  by (simp add: clear_def sorted_by_time_def keyframe_values_def)

lemma sorted_selectKeyframe: "sorted_by_time (selectKeyframe k m) = sorted_by_time m"
  by (simp add: selectKeyframe_def sorted_by_time_def keyframe_values_def)

lemma values_allocate:
  "refs_allocated m \<Longrightarrow> keyframe_values (snd (allocate k m)) = keyframe_values m"
  by (auto simp: refs_allocated_def allocate_def keyframe_values_def)

lemma sorted_import_entry: "sorted_by_time (import_entry d m)"
  by (simp add: import_entry_def split: prod.split) (simp add: sorted_addKeyframe)

lemma sorted_fold_import:
  "sorted_by_time m \<Longrightarrow> sorted_by_time (fold import_entry ds m)"
  by (induction ds arbitrary: m) (simp_all add: sorted_import_entry)

lemma sorted_importFromJSON: "sorted_by_time (importFromJSON d m)"
  by (simp add: importFromJSON_def Let_def sorted_clear sorted_fold_import split: option.split)

lemma set_sort_refs: "set (keyframes (sortKeyframes m)) = set (keyframes m)"
  and next_ref_sort: "next_ref (sortKeyframes m) = next_ref m"
  by (simp_all add: sortKeyframes_def)

lemma alloc_addKeyframe: "refs_allocated m \<Longrightarrow> r < next_ref m \<Longrightarrow> refs_allocated (addKeyframe r m)"
  by (auto simp: refs_allocated_def addKeyframe_def Let_def sortKeyframes_def)

lemma alloc_updateKeyframe: "refs_allocated m \<Longrightarrow> refs_allocated (updateKeyframe r n m)"
  by (auto simp: refs_allocated_def updateKeyframe_def Let_def sortKeyframes_def)

lemma alloc_removeKeyframe: "refs_allocated m \<Longrightarrow> refs_allocated (snd (removeKeyframe r m))"
  by (auto simp: refs_allocated_def removeKeyframe_def Let_def dest: notin_set_remove1)

lemma alloc_clear: "refs_allocated (clear m)"
  by (simp add: refs_allocated_def clear_def)

lemma alloc_selectKeyframe: "refs_allocated (selectKeyframe k m) = refs_allocated m"
  by (simp add: refs_allocated_def selectKeyframe_def)

lemma alloc_allocate: "refs_allocated m \<Longrightarrow> refs_allocated (snd (allocate k m))"
  by (auto simp: refs_allocated_def allocate_def)

lemma alloc_import_entry: "refs_allocated m \<Longrightarrow> refs_allocated (import_entry d m)"
  by (auto simp: import_entry_def refs_allocated_def allocate_def addKeyframe_def Let_def sortKeyframes_def)

lemma alloc_fold_import: "refs_allocated m \<Longrightarrow> refs_allocated (fold import_entry ds m)"
  by (induction ds arbitrary: m) (simp_all add: alloc_import_entry)

lemma alloc_importFromJSON: "refs_allocated (importFromJSON d m)"
  by (simp add: importFromJSON_def Let_def alloc_clear alloc_fold_import split: option.split)

lemma perform_invariant:
  "sorted_by_time m \<and> refs_allocated m \<Longrightarrow> sorted_by_time (perform op m) \<and> refs_allocated (perform op m)"
proof (cases op)
  case (NewKeyframe t cd itype)
  then show "sorted_by_time m \<and> refs_allocated m \<Longrightarrow> ?thesis"
    by (simp add: alloc_allocate sorted_by_time_def values_allocate)
next
  case (SelectKeyframe k)
  then show "sorted_by_time m \<and> refs_allocated m \<Longrightarrow> ?thesis"
    by (cases k) (simp_all add: sorted_selectKeyframe alloc_selectKeyframe)
qed (simp_all add: sorted_addKeyframe alloc_addKeyframe sorted_updateKeyframe alloc_updateKeyframe
      sorted_removeKeyframe alloc_removeKeyframe sorted_clear alloc_clear
      sorted_importFromJSON alloc_importFromJSON)

lemma run_invariant:
  "sorted_by_time m \<and> refs_allocated m \<Longrightarrow> sorted_by_time (run ops m) \<and> refs_allocated (run ops m)"
  unfolding run_def
proof (induction ops arbitrary: m)
  case Nil
  then show ?case by simp
next
  case (Cons op ops)
  from Cons.prems have "sorted_by_time (perform op m) \<and> refs_allocated (perform op m)"
    by (rule perform_invariant)
  then show ?case using Cons.IH by simp
qed

lemma initial_invariant: "sorted_by_time (new_KeyframeManager s) \<and> refs_allocated (new_KeyframeManager s)"
  by (simp add: new_KeyframeManager_def sorted_by_time_def keyframe_values_def refs_allocated_def)

lemmas manager_defs =
  run_def new_KeyframeManager_def allocate_def addKeyframe_def sortKeyframes_def emit_def
  updateKeyframe_def removeKeyframe_def Let_def

lemma two_keyframes_refs: "keyframes two_keyframes = [1, 0]"
  by (simp add: two_keyframes_def manager_defs new_Keyframe_def)

lemma two_keyframes_times: "map time (keyframe_values two_keyframes) = [1, 5]"
  by (simp add: two_keyframes_def keyframe_values_def manager_defs new_Keyframe_def)

lemma one_keyframe_refs: "keyframes one_keyframe = [0]"
  by (simp add: one_keyframe_def manager_defs new_Keyframe_def)

lemma one_keyframe_object: "objects one_keyframe 0 = new_Keyframe 5 tokyo None"
  by (simp add: one_keyframe_def manager_defs)

text \<open>
  C9. Sortedness of the timeline: \<open>addKeyframe\<close> and \<open>updateKeyframe\<close> (whatever
  fields the update changes, the time included) leave the array sorted ascending by time,
  since both sort it; \<open>removeKeyframe\<close> does not sort but keeps a sorted array sorted;
  and so the array is sorted after any sequence of operations on a new manager.
\<close>

theorem timeline_sorted_after_mutation:
  "sorted_by_time (addKeyframe r m)
   \<and> sorted_by_time (updateKeyframe r n m)
   \<and> (sorted_by_time m \<longrightarrow> sorted_by_time (snd (removeKeyframe r m)))
   \<and> sorted_by_time (run ops (new_KeyframeManager store))"
  using run_invariant [OF initial_invariant, of ops store]
  by (simp add: sorted_addKeyframe sorted_updateKeyframe sorted_removeKeyframe)

theorem timeline_sorted_after_mutation_witness:
  "sorted_by_time two_keyframes
   \<and> map time (keyframe_values two_keyframes) = [1, 5]
   \<and> sorted_by_time (snd (removeKeyframe 1 two_keyframes))
   \<and> sorted_by_time (updateKeyframe 1 \<lparr>new_time = Some 7, new_latitude = None, new_longitude = None,
        new_height = None, new_heading = None, new_pitch = None, new_roll = None, new_fov = None,
        new_interpolationType = None\<rparr> two_keyframes)"
proof -
  have h: "sorted_by_time two_keyframes"
    by (simp add: sorted_by_time_def two_keyframes_times)
  from h timeline_sorted_after_mutation [of 1 two_keyframes "\<lparr>new_time = Some 7, new_latitude = None, new_longitude = None,
        new_height = None, new_heading = None, new_pitch = None, new_roll = None, new_fov = None,
        new_interpolationType = None\<rparr>" "[]" blank_store]
  show ?thesis by (simp add: two_keyframes_times)
qed

lemma two_keyframes_objects:
  "objects two_keyframes 0 = new_Keyframe 5 tokyo None"
  "objects two_keyframes 1 = new_Keyframe 1 tokyo (Some ''linear'')"
  "objects two_keyframes (Suc 0) = new_Keyframe 1 tokyo (Some ''linear'')"
  by (simp_all add: two_keyframes_def manager_defs)

section \<open>Sampling at the edges of the timeline\<close>

lemma toJSON_id: "toJSON k = k"
  by (simp add: toJSON_def)

lemma surrounding_all_below:
  "\<forall>r \<in> set ks. time (obj r) < t \<Longrightarrow>
   surrounding obj t ks before None = ((if ks = [] then before else Some (last ks)), None)"
  by (induction ks arbitrary: before) (auto simp: Let_def)

lemma surrounding_hit:
  "sorted (map (\<lambda>r. time (obj r)) ks) \<Longrightarrow> find (\<lambda>r. time (obj r) = t) ks = Some r \<Longrightarrow>
   surrounding obj t ks before None = (Some r, Some r)"
proof (induction ks arbitrary: before)
  case Nil
  then show ?case by simp
next
  case (Cons k ks)
  show ?case
  proof (cases "time (obj k) = t")
    case True
    with Cons.prems show ?thesis by (simp add: Let_def)
  next
    case False
    with Cons.prems have f: "find (\<lambda>r. time (obj r) = t) ks = Some r" by simp
    then have "r \<in> set ks" "time (obj r) = t" by (auto simp: find_Some_iff)
    with Cons.prems(1) have "time (obj k) \<le> t" by auto
    with False have lt: "time (obj k) < t" by simp
    from Cons.prems(1) have "sorted (map (\<lambda>r. time (obj r)) ks)" by simp
    from Cons.IH [OF this f] lt show ?thesis by (simp add: Let_def)
  qed
qed

lemma sorted_le_last: "sorted (map f xs) \<Longrightarrow> x \<in> set xs \<Longrightarrow> f x \<le> f (last xs)"
  by (induction xs) auto

lemma interpolateAt_empty: "keyframes m = [] \<Longrightarrow> interpolateAt m t = PoseObject default_pose"
  by (simp add: interpolateAt_def getSurroundingKeyframes_def)

lemma interpolateAt_before_first:
  "keyframes m = k # ks \<Longrightarrow> t < time (objects m k) \<Longrightarrow>
   interpolateAt m t = KeyframeObject (toJSON (objects m k))"
  by (simp add: interpolateAt_def getSurroundingKeyframes_def Let_def)

lemma interpolateAt_after_last:
  assumes "sorted_by_time m" "keyframes m \<noteq> []" "time (objects m (last (keyframes m))) < t"
  shows "interpolateAt m t = KeyframeObject (toJSON (objects m (last (keyframes m))))"
proof -
  have s: "sorted (map (\<lambda>r. time (objects m r)) (keyframes m))"
    using assms(1) by (simp add: sorted_by_time_def keyframe_values_def comp_def)
  have "\<forall>r \<in> set (keyframes m). time (objects m r) \<le> time (objects m (last (keyframes m)))"
    using sorted_le_last [OF s] by blast
  with assms(3) have "\<forall>r \<in> set (keyframes m). time (objects m r) < t" by fastforce
  from surrounding_all_below [OF this] assms(2) show ?thesis
    by (simp add: interpolateAt_def getSurroundingKeyframes_def)
qed

lemma interpolateAt_exact:
  assumes "sorted_by_time m" "find (\<lambda>r. time (objects m r) = t) (keyframes m) = Some r"
  shows "interpolateAt m t = KeyframeObject (toJSON (objects m r))"
proof -
  have s: "sorted (map (\<lambda>r. time (objects m r)) (keyframes m))"
    using assms(1) by (simp add: sorted_by_time_def keyframe_values_def comp_def)
  from assms(2) have "keyframes m \<noteq> []" by auto
  with surrounding_hit [OF s assms(2)] show ?thesis
    by (simp add: interpolateAt_def getSurroundingKeyframes_def)
qed

lemma interpolateAt_single:
  "keyframes m = [r] \<Longrightarrow> interpolateAt m t = KeyframeObject (toJSON (objects m r))"
  by (simp add: interpolateAt_def getSurroundingKeyframes_def Let_def)

lemma twin_keyframes_refs: "keyframes twin_keyframes = [0, 1]"
  by (simp add: twin_keyframes_def manager_defs new_Keyframe_def)

lemma twin_keyframes_objects:
  "objects twin_keyframes 0 = new_Keyframe 1 (tokyo\<lparr>cd_height := 100\<rparr>) None"
  "objects twin_keyframes 1 = new_Keyframe 1 (tokyo\<lparr>cd_height := 200\<rparr>) None"
  "objects twin_keyframes (Suc 0) = new_Keyframe 1 (tokyo\<lparr>cd_height := 200\<rparr>) None"
  by (simp_all add: twin_keyframes_def manager_defs)

text \<open>
  C5, as stated, fails in its last case when two keyframes have the same time: sampling
  at that time returns the first of them in the array, so for the second one the sample
  is not that keyframe. Here two keyframes are added at time 1, 100 m and 200 m high.
\<close>

theorem duplicate_time_counterexample:
  "keyframes twin_keyframes = [0, 1]
   \<and> time (objects twin_keyframes 0) = 1 \<and> time (objects twin_keyframes 1) = 1
   \<and> height (objects twin_keyframes 0) = 100 \<and> height (objects twin_keyframes 1) = 200
   \<and> interpolateAt twin_keyframes 1 = KeyframeObject (toJSON (objects twin_keyframes 0))
   \<and> interpolateAt twin_keyframes 1 \<noteq> KeyframeObject (toJSON (objects twin_keyframes 1))"
proof -
  have t: "time (objects twin_keyframes 0) = 1" "time (objects twin_keyframes 1) = 1"
    by (simp_all add: twin_keyframes_objects new_Keyframe_def)
  have h: "height (objects twin_keyframes 0) = 100" "height (objects twin_keyframes 1) = 200"
    by (simp_all add: twin_keyframes_objects new_Keyframe_def)
  have s: "interpolateAt twin_keyframes 1 = KeyframeObject (toJSON (objects twin_keyframes 0))"
    by (simp add: interpolateAt_def getSurroundingKeyframes_def twin_keyframes_refs
        twin_keyframes_objects new_Keyframe_def Let_def)
  have "height (toJSON (objects twin_keyframes 0)) \<noteq> height (toJSON (objects twin_keyframes 1))"
    using h by (simp add: toJSON_id)
  then have n: "interpolateAt twin_keyframes 1 \<noteq> KeyframeObject (toJSON (objects twin_keyframes 1))"
    unfolding s by auto
  show ?thesis
    by (intro conjI) (fact twin_keyframes_refs, fact t(1), fact t(2), fact h(1), fact h(2), fact s, fact n)
qed

text \<open>
  C5, amended. Sampling at the edges. With no keyframes the sample is the fixed default
  pose. For a time before the first keyframe's the sample is the first keyframe, and for
  a time after the last keyframe's it is the last one. For a time equal to the time of
  one or more keyframes it is the first keyframe in the array with that time, hence the
  keyframe itself when no other has the same time. With a single keyframe every sample
  time returns it. The object returned is the keyframe's \<open>toJSON\<close>, which has the
  keyframe's own field values. The array is sorted by time, as the manager keeps it.
\<close>

theorem sample_edge_cases:
  "(keyframes m = [] \<longrightarrow> interpolateAt m t = PoseObject default_pose)
   \<and> (keyframes m = k # ks \<and> t < time (objects m k) \<longrightarrow>
        interpolateAt m t = KeyframeObject (toJSON (objects m k)))
   \<and> (sorted_by_time m \<and> keyframes m \<noteq> [] \<and> time (objects m (last (keyframes m))) < t \<longrightarrow>
        interpolateAt m t = KeyframeObject (toJSON (objects m (last (keyframes m)))))
   \<and> (sorted_by_time m \<and> find (\<lambda>x. time (objects m x) = t) (keyframes m) = Some r \<longrightarrow>
        interpolateAt m t = KeyframeObject (toJSON (objects m r)))
   \<and> (sorted_by_time m \<and> r \<in> set (keyframes m) \<and> time (objects m r) = t
        \<and> (\<forall>x \<in> set (keyframes m). time (objects m x) = t \<longrightarrow> x = r) \<longrightarrow>
        interpolateAt m t = KeyframeObject (toJSON (objects m r)))
   \<and> (keyframes m = [r] \<longrightarrow> interpolateAt m t = KeyframeObject (toJSON (objects m r)))
   \<and> toJSON kf = kf"
proof -
  have unique: "interpolateAt m t = KeyframeObject (toJSON (objects m r))"
    if s: "sorted_by_time m" and r: "r \<in> set (keyframes m)" "time (objects m r) = t"
      and u: "\<forall>x \<in> set (keyframes m). time (objects m x) = t \<longrightarrow> x = r"
  proof -
    from r obtain x where f: "find (\<lambda>x. time (objects m x) = t) (keyframes m) = Some x"
      by (cases "find (\<lambda>x. time (objects m x) = t) (keyframes m)") (auto simp: find_None_iff)
    then have "x \<in> set (keyframes m)" "time (objects m x) = t"
      by (auto simp: find_Some_iff)
    with u have "x = r" by blast
    with interpolateAt_exact [OF s f] show ?thesis by simp
  qed
  have a: "keyframes m = [] \<longrightarrow> interpolateAt m t = PoseObject default_pose"
    using interpolateAt_empty by blast
  have b: "keyframes m = k # ks \<and> t < time (objects m k) \<longrightarrow>
        interpolateAt m t = KeyframeObject (toJSON (objects m k))"
    using interpolateAt_before_first by blast
  have c: "sorted_by_time m \<and> keyframes m \<noteq> [] \<and> time (objects m (last (keyframes m))) < t \<longrightarrow>
        interpolateAt m t = KeyframeObject (toJSON (objects m (last (keyframes m))))"
    using interpolateAt_after_last by blast
  have d: "sorted_by_time m \<and> find (\<lambda>x. time (objects m x) = t) (keyframes m) = Some r \<longrightarrow>
        interpolateAt m t = KeyframeObject (toJSON (objects m r))"
    using interpolateAt_exact by blast
  have e: "sorted_by_time m \<and> r \<in> set (keyframes m) \<and> time (objects m r) = t
        \<and> (\<forall>x \<in> set (keyframes m). time (objects m x) = t \<longrightarrow> x = r) \<longrightarrow>
        interpolateAt m t = KeyframeObject (toJSON (objects m r))"
    using unique by blast
  have f: "keyframes m = [r] \<longrightarrow> interpolateAt m t = KeyframeObject (toJSON (objects m r))"
    using interpolateAt_single by blast
  show ?thesis
    by (intro conjI) (fact a, fact b, fact c, fact d, fact e, fact f, fact toJSON_id)
qed

theorem sample_edge_cases_witness:
  "keyframes one_keyframe = [0] \<and> time (objects one_keyframe 0) = 5
   \<and> interpolateAt one_keyframe 0 = KeyframeObject (objects one_keyframe 0)
   \<and> interpolateAt one_keyframe 5 = KeyframeObject (objects one_keyframe 0)
   \<and> interpolateAt one_keyframe 100 = KeyframeObject (objects one_keyframe 0)
   \<and> sorted_by_time two_keyframes \<and> keyframes two_keyframes = [1, 0]
   \<and> map time (keyframe_values two_keyframes) = [1, 5]
   \<and> interpolateAt two_keyframes 0 = KeyframeObject (objects two_keyframes 1)
   \<and> interpolateAt two_keyframes 9 = KeyframeObject (objects two_keyframes 0)
   \<and> interpolateAt two_keyframes 5 = KeyframeObject (objects two_keyframes 0)
   \<and> interpolateAt two_keyframes 1 = KeyframeObject (objects two_keyframes 1)
   \<and> interpolateAt (new_KeyframeManager blank_store) 3 = PoseObject default_pose"
proof -
  have s: "sorted_by_time two_keyframes"
    by (simp add: sorted_by_time_def two_keyframes_times)
  have t5: "time (objects one_keyframe 0) = 5"
    by (simp add: one_keyframe_object new_Keyframe_def)
  have single: "interpolateAt one_keyframe t = KeyframeObject (objects one_keyframe 0)" for t
    using sample_edge_cases [of one_keyframe t 0 "[]" 0 "objects one_keyframe 0", 
        THEN conjunct2, THEN conjunct2, THEN conjunct2, THEN conjunct2, THEN conjunct2, THEN conjunct1]
    by (simp add: one_keyframe_refs toJSON_id)
  have first: "interpolateAt two_keyframes 0 = KeyframeObject (objects two_keyframes 1)"
    using sample_edge_cases [of two_keyframes 0 1 "[0]" 0 "objects two_keyframes 1", THEN conjunct2, THEN conjunct1]
    by (simp add: two_keyframes_refs two_keyframes_objects new_Keyframe_def toJSON_id)
  have last: "interpolateAt two_keyframes 9 = KeyframeObject (objects two_keyframes 0)"
    using s sample_edge_cases [of two_keyframes 9 1 "[0]" 0 "objects two_keyframes 0", THEN conjunct2, THEN conjunct2, THEN conjunct1]
    by (simp add: two_keyframes_refs two_keyframes_objects new_Keyframe_def toJSON_id)
  have exact5: "interpolateAt two_keyframes 5 = KeyframeObject (objects two_keyframes 0)"
    using s sample_edge_cases [of two_keyframes 5 1 "[0]" 0 "objects two_keyframes 0", THEN conjunct2, THEN conjunct2, THEN conjunct2, THEN conjunct1]
    by (simp add: two_keyframes_refs two_keyframes_objects new_Keyframe_def toJSON_id)
  have exact1: "interpolateAt two_keyframes 1 = KeyframeObject (objects two_keyframes 1)"
    using s sample_edge_cases [of two_keyframes 1 1 "[0]" 1 "objects two_keyframes 1", THEN conjunct2, THEN conjunct2, THEN conjunct2, THEN conjunct2, THEN conjunct1]
    by (simp add: two_keyframes_refs two_keyframes_objects new_Keyframe_def toJSON_id)
  have none: "interpolateAt (new_KeyframeManager blank_store) 3 = PoseObject default_pose"
    using sample_edge_cases [of "new_KeyframeManager blank_store" 3 0 "[]" 0 "blank_store 0", THEN conjunct1]
    by (simp add: new_KeyframeManager_def)
  show ?thesis
    by (intro conjI) (fact one_keyframe_refs, fact t5, fact single, fact single, fact single, fact s,
      fact two_keyframes_refs, fact two_keyframes_times, fact first, fact last, fact exact5, fact exact1, fact none)
qed

section \<open>Export and import of the keyframe list\<close>

lemma fromJSON_parsed:
  "fromJSON (parsed (toJSON k)) = k\<lparr>fov := or_default (Some (fov k)) 60\<rparr>"
  by (cases k) (simp add: fromJSON_def parsed_def toJSON_def new_Keyframe_def)

lemma or_default_nonzero: "v \<noteq> 0 \<Longrightarrow> or_default (Some v) d = v"
  by (simp add: or_default_def)

lemma or_default_60: "or_default x 60 \<noteq> 0"
  by (simp add: or_default_def split: option.split)

lemma time_fromJSON: "time (fromJSON d) = d_time d"
  by (simp add: fromJSON_def new_Keyframe_def)

lemma values_after_allocate:
  assumes "refs_allocated m"
  shows "map ((objects m)(next_ref m := k)) (keyframes m) = keyframe_values m"
  using assms by (auto simp: refs_allocated_def keyframe_values_def)

lemma import_entry_keyframes:
  "keyframes (import_entry d m) =
     sort_key (\<lambda>r. time (((objects m)(next_ref m := fromJSON d)) r)) (keyframes m @ [next_ref m])"
  by (simp add: import_entry_def allocate_def addKeyframe_def Let_def sortKeyframes_def)

lemma import_entry_objects: "objects (import_entry d m) = (objects m)(next_ref m := fromJSON d)"
  by (simp add: import_entry_def allocate_def addKeyframe_def Let_def sortKeyframes_def)

lemma import_entry_next: "next_ref (import_entry d m) = Suc (next_ref m)"
  by (simp add: import_entry_def allocate_def addKeyframe_def Let_def sortKeyframes_def)

lemma import_entry_values:
  assumes a: "refs_allocated m"
    and s: "sorted (map time (keyframe_values m @ [fromJSON d]))"
  shows "keyframe_values (import_entry d m) = keyframe_values m @ [fromJSON d]"
proof -
  let ?obj = "(objects m)(next_ref m := fromJSON d)"
  have v: "map ?obj (keyframes m @ [next_ref m]) = keyframe_values m @ [fromJSON d]"
    using values_after_allocate [OF a] by simp
  have "map (\<lambda>r. time (?obj r)) (keyframes m @ [next_ref m]) =
        map time (map ?obj (keyframes m @ [next_ref m]))"
    by (simp only: map_map comp_def)
  with s v have "sorted (map (\<lambda>r. time (?obj r)) (keyframes m @ [next_ref m]))"
    by (simp only:)
  then have "keyframes (import_entry d m) = keyframes m @ [next_ref m]"
    unfolding import_entry_keyframes by (rule sort_key_id_if_sorted)
  then show ?thesis
    unfolding keyframe_values_def import_entry_objects using v by (simp only: keyframe_values_def)
qed

lemma fold_import_values:
  "refs_allocated m \<Longrightarrow> sorted (map time (keyframe_values m @ map fromJSON ds)) \<Longrightarrow>
   keyframe_values (fold import_entry ds m) = keyframe_values m @ map fromJSON ds"
proof (induction ds arbitrary: m)
  case Nil
  then show ?case by simp
next
  case (Cons d ds)
  from Cons.prems(2) have "sorted (map time (keyframe_values m @ [fromJSON d]))"
    by (simp add: sorted_append)
  with Cons.prems(1) have v: "keyframe_values (import_entry d m) = keyframe_values m @ [fromJSON d]"
    by (rule import_entry_values)
  have a: "refs_allocated (import_entry d m)"
    using Cons.prems(1) by (rule alloc_import_entry)
  have "sorted (map time (keyframe_values (import_entry d m) @ map fromJSON ds))"
    using Cons.prems(2) unfolding v by simp
  with a have "keyframe_values (fold import_entry ds (import_entry d m)) =
        keyframe_values (import_entry d m) @ map fromJSON ds"
    by (rule Cons.IH)
  then show ?case unfolding v by simp
qed

lemma keyframe_values_clear: "keyframe_values (clear m) = []"
  by (simp add: keyframe_values_def clear_def)

lemma reimport_entries:
  "map fromJSON (map parsed (doc_keyframes (exportToJSON m))) =
   map (\<lambda>k. k\<lparr>fov := or_default (Some (fov k)) 60\<rparr>) (keyframe_values m)"
  by (simp add: exportToJSON_def keyframe_values_def fromJSON_parsed comp_def)

lemma reimport_values:
  assumes "sorted_by_time m"
  shows "keyframe_values (reimport m) =
         map (\<lambda>k. k\<lparr>fov := or_default (Some (fov k)) 60\<rparr>) (keyframe_values m)"
proof -
  let ?ds = "map parsed (doc_keyframes (exportToJSON m))"
  have "map time (map fromJSON ?ds) = map time (keyframe_values m)"
    unfolding reimport_entries by (simp add: comp_def)
  with assms have "sorted (map time (keyframe_values (clear m) @ map fromJSON ?ds))"
    by (simp add: keyframe_values_clear sorted_by_time_def)
  from fold_import_values [OF alloc_clear this]
  have "keyframe_values (fold import_entry ?ds (clear m)) = map fromJSON ?ds"
    by (simp add: keyframe_values_clear)
  then show ?thesis
    unfolding reimport_entries by (simp add: reimport_def importFromJSON_def Let_def)
qed

lemma set_values_import_entry:
  assumes "refs_allocated m"
  shows "set (keyframe_values (import_entry d m)) = insert (fromJSON d) (set (keyframe_values m))"
proof -
  let ?obj = "(objects m)(next_ref m := fromJSON d)"
  have k: "set (keyframes (import_entry d m)) = set (keyframes m @ [next_ref m])"
    by (simp add: import_entry_keyframes)
  have v: "map ?obj (keyframes m @ [next_ref m]) = keyframe_values m @ [fromJSON d]"
    using values_after_allocate [OF assms] by simp
  have "set (keyframe_values (import_entry d m)) = ?obj ` set (keyframes m @ [next_ref m])"
    unfolding keyframe_values_def import_entry_objects set_map k ..
  also have "\<dots> = set (map ?obj (keyframes m @ [next_ref m]))"
    by (simp only: set_map)
  also have "\<dots> = insert (fromJSON d) (set (keyframe_values m))"
    unfolding v by simp
  finally show ?thesis .
qed

lemma set_values_fold_import:
  "refs_allocated m \<Longrightarrow>
   set (keyframe_values (fold import_entry ds m)) = set (keyframe_values m) \<union> fromJSON ` set ds"
proof (induction ds arbitrary: m)
  case Nil
  then show ?case by simp
next
  case (Cons d ds)
  have a: "refs_allocated (import_entry d m)"
    using Cons.prems by (rule alloc_import_entry)
  have "set (keyframe_values (fold import_entry ds (import_entry d m))) =
        set (keyframe_values (import_entry d m)) \<union> fromJSON ` set ds"
    using a by (rule Cons.IH)
  also have "\<dots> = insert (fromJSON d) (set (keyframe_values m)) \<union> fromJSON ` set ds"
    using Cons.prems by (simp only: set_values_import_entry)
  finally show ?case by simp
qed

lemma set_values_importFromJSON:
  "set (keyframe_values (importFromJSON (Some ds) m)) = fromJSON ` set ds"
  by (simp add: importFromJSON_def Let_def set_values_fold_import alloc_clear keyframe_values_clear)

lemma length_import_entry: "length (keyframes (import_entry d m)) = Suc (length (keyframes m))"
  by (simp add: import_entry_keyframes)

lemma length_fold_import:
  "length (keyframes (fold import_entry ds m)) = length (keyframes m) + length ds"
  by (induction ds arbitrary: m) (simp_all add: length_import_entry)

lemma length_importFromJSON:
  "length (keyframes (importFromJSON (Some ds) m)) = length ds"
  by (simp add: importFromJSON_def Let_def length_fold_import clear_def emit_def)

lemma two_keyframes_values:
  "keyframe_values two_keyframes = [new_Keyframe 1 tokyo (Some ''linear''), new_Keyframe 5 tokyo None]"
  by (simp add: keyframe_values_def two_keyframes_refs two_keyframes_objects)

lemma fov_tokyo: "fov (new_Keyframe t tokyo itype) = 50"
  by (simp add: new_Keyframe_def tokyo_def or_default_def)

lemma fov_zero_timeline_values:
  "keyframe_values fov_zero_timeline = [(new_Keyframe 5 tokyo None)\<lparr>fov := 0\<rparr>]"
  by (simp add: fov_zero_timeline_def keyframe_values_def manager_defs assign_def zero_fov_def
      new_Keyframe_def)

lemma fov_zero_timeline_sorted: "sorted_by_time fov_zero_timeline"
  by (simp add: sorted_by_time_def fov_zero_timeline_values)

lemma fov_zero_timeline_reimport:
  "keyframe_values (reimport fov_zero_timeline) = [(new_Keyframe 5 tokyo None)\<lparr>fov := 60\<rparr>]"
  by (simp add: reimport_values [OF fov_zero_timeline_sorted] fov_zero_timeline_values or_default_def)

text \<open>
  C6, as stated, fails: a keyframe whose field of view an update has set to 0 is exported
  with 0 and imported with 60.
\<close>

theorem roundtrip_counterexample:
  "map fov (keyframe_values fov_zero_timeline) = [0]
   \<and> map fov (keyframe_values (reimport fov_zero_timeline)) = [60]
   \<and> keyframe_values (reimport fov_zero_timeline) \<noteq> keyframe_values fov_zero_timeline"
proof -
  have a: "map fov (keyframe_values fov_zero_timeline) = [0]"
    by (simp add: fov_zero_timeline_values)
  have b: "map fov (keyframe_values (reimport fov_zero_timeline)) = [60]"
    by (simp add: fov_zero_timeline_reimport)
  from a b have c: "keyframe_values (reimport fov_zero_timeline) \<noteq> keyframe_values fov_zero_timeline"
    by auto
  show ?thesis by (intro conjI) (fact a, fact b, fact c)
qed

text \<open>
  C6, amended. For every timeline state (its array sorted by time, as it is after any
  sequence of operations on a new manager), exporting and importing the exported document
  gives the same keyframes in the same order, every field equal, except that a field of
  view of 0 comes back as 60. So the round trip is exact for every timeline none of whose
  keyframes has a field of view of 0.
\<close>

theorem roundtrip_up_to_zero_fov:
  "(sorted_by_time m \<longrightarrow>
      keyframe_values (reimport m) =
      map (\<lambda>k. k\<lparr>fov := or_default (Some (fov k)) 60\<rparr>) (keyframe_values m))
   \<and> (sorted_by_time m \<and> (\<forall>k \<in> set (keyframe_values m). fov k \<noteq> 0) \<longrightarrow>
      keyframe_values (reimport m) = keyframe_values m)
   \<and> ((\<forall>k \<in> set (keyframe_values (run ops (new_KeyframeManager store))). fov k \<noteq> 0) \<longrightarrow>
      keyframe_values (reimport (run ops (new_KeyframeManager store))) =
      keyframe_values (run ops (new_KeyframeManager store)))"
proof -
  have exact: "keyframe_values (reimport x) = keyframe_values x"
    if s: "sorted_by_time x" and nz: "\<forall>k \<in> set (keyframe_values x). fov k \<noteq> 0" for x
  proof -
    have "map (\<lambda>k. k\<lparr>fov := or_default (Some (fov k)) 60\<rparr>) (keyframe_values x) =
          map (\<lambda>k. k) (keyframe_values x)"
      using nz by (intro map_cong) (simp_all add: or_default_nonzero)
    with reimport_values [OF s] show ?thesis by simp
  qed
  have a: "sorted_by_time m \<longrightarrow>
      keyframe_values (reimport m) =
      map (\<lambda>k. k\<lparr>fov := or_default (Some (fov k)) 60\<rparr>) (keyframe_values m)"
    using reimport_values by blast
  have b: "sorted_by_time m \<and> (\<forall>k \<in> set (keyframe_values m). fov k \<noteq> 0) \<longrightarrow>
      keyframe_values (reimport m) = keyframe_values m"
    using exact by blast
  have "sorted_by_time (run ops (new_KeyframeManager store))"
    using run_invariant [OF initial_invariant] by blast
  then have c: "(\<forall>k \<in> set (keyframe_values (run ops (new_KeyframeManager store))). fov k \<noteq> 0) \<longrightarrow>
      keyframe_values (reimport (run ops (new_KeyframeManager store))) =
      keyframe_values (run ops (new_KeyframeManager store))"
    using exact by blast
  show ?thesis by (intro conjI) (fact a, fact b, fact c)
qed

theorem roundtrip_up_to_zero_fov_witness:
  "sorted_by_time two_keyframes
   \<and> map fov (keyframe_values two_keyframes) = [50, 50]
   \<and> keyframe_values (reimport two_keyframes) = keyframe_values two_keyframes
   \<and> map time (keyframe_values (reimport two_keyframes)) = [1, 5]"
proof -
  have s: "sorted_by_time two_keyframes"
    by (simp add: sorted_by_time_def two_keyframes_times)
  have f: "map fov (keyframe_values two_keyframes) = [50, 50]"
    by (simp add: two_keyframes_values fov_tokyo)
  have nz: "\<forall>k \<in> set (keyframe_values two_keyframes). fov k \<noteq> 0"
    by (simp add: two_keyframes_values fov_tokyo)
  have r: "keyframe_values (reimport two_keyframes) = keyframe_values two_keyframes"
    using s nz roundtrip_up_to_zero_fov [of two_keyframes "[]" blank_store, THEN conjunct2, THEN conjunct1]
    by blast
  have t: "map time (keyframe_values (reimport two_keyframes)) = [1, 5]"
    unfolding r by (fact two_keyframes_times)
  show ?thesis by (intro conjI) (fact s, fact f, fact r, fact t)
qed

lemma fov_new_Keyframe:
  "fov (new_Keyframe t cd itype) = (case cd_fov cd of None \<Rightarrow> 60 | Some v \<Rightarrow> if v = 0 then 60 else v)"
  by (simp add: new_Keyframe_def or_default_def)

lemma fov_new_Keyframe_nonzero: "fov (new_Keyframe t cd itype) \<noteq> 0"
  by (simp add: new_Keyframe_def or_default_60)

lemma fov_fromJSON: "fov (fromJSON d) = or_default (cd_fov d) 60"
  by (simp add: fromJSON_def new_Keyframe_def)

lemma fov_clone_nonzero: "fov (clone k) \<noteq> 0"
  by (simp add: clone_def fov_new_Keyframe_nonzero)

text \<open>
  C10, as stated, fails in its middle part: a keyframe can carry a field of view of 0,
  because \<open>updateKeyframe\<close> assigns the new fields without passing through the
  constructor.
\<close>

theorem fov_zero_counterexample:
  "keyframes fov_zero_timeline = [0] \<and> fov (objects fov_zero_timeline 0) = 0"
  by (simp add: fov_zero_timeline_def manager_defs assign_def zero_fov_def)

text \<open>
  C10, amended. The constructor sets the field of view to 60 when \<open>cameraData\<close> has none
  and when it is 0, and to the given value otherwise; so no keyframe has a field of view of
  0 when the constructor, \<open>fromJSON\<close> or \<open>clone\<close> returns it. An import creates one
  keyframe for each entry of the document, by \<open>fromJSON\<close>: an entry whose field of view is
  0 or absent is imported with 60, and no imported keyframe has 0. (An update can still
  set the field to 0 later.)
\<close>

theorem constructor_fov_default:
  "fov (new_Keyframe t cd itype) = (case cd_fov cd of None \<Rightarrow> 60 | Some v \<Rightarrow> if v = 0 then 60 else v)
   \<and> fov (new_Keyframe t cd itype) \<noteq> 0
   \<and> fov (fromJSON d) \<noteq> 0
   \<and> fov (clone k) \<noteq> 0
   \<and> (cd_fov d = Some 0 \<or> cd_fov d = None \<longrightarrow> fov (fromJSON d) = 60)
   \<and> set (keyframe_values (importFromJSON (Some ds) m)) = fromJSON ` set ds
   \<and> length (keyframes (importFromJSON (Some ds) m)) = length ds
   \<and> (\<forall>x \<in> set (keyframe_values (importFromJSON (Some ds) m)). fov x \<noteq> 0)"
proof -
  have a: "fov (fromJSON d) \<noteq> 0"
    by (simp add: fov_fromJSON or_default_60)
  have b: "cd_fov d = Some 0 \<or> cd_fov d = None \<longrightarrow> fov (fromJSON d) = 60"
    by (auto simp: fov_fromJSON or_default_def)
  have c: "\<forall>x \<in> set (keyframe_values (importFromJSON (Some ds) m)). fov x \<noteq> 0"
    unfolding set_values_importFromJSON by (auto simp: fov_fromJSON or_default_60)
  show ?thesis
    by (intro conjI) (fact fov_new_Keyframe, fact fov_new_Keyframe_nonzero, fact a,
        fact fov_clone_nonzero, fact b, fact set_values_importFromJSON,
        fact length_importFromJSON, fact c)
qed

theorem constructor_fov_default_witness:
  "cd_fov zero_fov_entry = Some 0
   \<and> fov (fromJSON zero_fov_entry) = 60
   \<and> keyframe_values (importFromJSON (Some [zero_fov_entry]) two_keyframes) = [fromJSON zero_fov_entry]
   \<and> map fov (keyframe_values (importFromJSON (Some [zero_fov_entry]) two_keyframes)) = [60]"
proof -
  note inst = constructor_fov_default [of 0 tokyo None zero_fov_entry "new_Keyframe 0 tokyo None" "[zero_fov_entry]" two_keyframes]
  have h: "cd_fov zero_fov_entry = Some 0"
    by (simp add: zero_fov_entry_def)
  from inst h have f: "fov (fromJSON zero_fov_entry) = 60"
    by blast
  from inst have s: "set (keyframe_values (importFromJSON (Some [zero_fov_entry]) two_keyframes)) = {fromJSON zero_fov_entry}"
    by simp
  from inst have "length (keyframes (importFromJSON (Some [zero_fov_entry]) two_keyframes)) = length [zero_fov_entry]"
    by blast
  then have l: "length (keyframe_values (importFromJSON (Some [zero_fov_entry]) two_keyframes)) = 1"
    by (simp add: keyframe_values_def)
  from s l have v: "keyframe_values (importFromJSON (Some [zero_fov_entry]) two_keyframes) = [fromJSON zero_fov_entry]"
    by (cases "keyframe_values (importFromJSON (Some [zero_fov_entry]) two_keyframes)") auto
  have q: "map fov (keyframe_values (importFromJSON (Some [zero_fov_entry]) two_keyframes)) = [60]"
    unfolding v using f by simp
  show ?thesis by (intro conjI) (fact h, fact f, fact v, fact q)
qed

section \<open>Ticks of the playback clock\<close>




lemma pause_fields:
  "isPlaying (pause c) = False"
  "currentTime (pause c) = currentTime c"
  "duration (pause c) = duration c"
  "fps (pause c) = fps c"
  "frameInterval (pause c) = frameInterval c"
  "lastFrameTime (pause c) = lastFrameTime c"
  "loop (pause c) = loop c"
  by (simp_all add: pause_def perform_effect_def Let_def)


































section \<open>The capture and upload loop\<close>




















lemma playing_exporter_fields:
  "\<not> isExporting playing_exporter" "isPlaying (controller playing_exporter)"
  "duration (controller playing_exporter) = 1"
  "containerWidth playing_exporter = Px 800" "containerHeight playing_exporter = Px 600"
  by (simp_all add: playing_exporter_def idle_exporter_def setDuration_def perform_effect_def
      new_AnimationController_def play_def animate_def request_frame_def Let_def)

lemma catch_block_fields:
  "containerWidth (catch_block e x) = Percent 100"
  "containerHeight (catch_block e x) = Percent 100"
  "exportProgress (catch_block e x) = 0"
  "statusText (catch_block e x) = ErrorStatus e"
  "isExporting (catch_block e x) = False"
  "controller (catch_block e x) = controller x"
  by (simp_all add: catch_block_def Let_def call_def updateProgress_def)

lemma startExport_failed:
  assumes "startExport env st km x = (Failed e, x')"
  shows "exportProgress x' = 0 \<and> statusText x' = ErrorStatus e \<and> \<not> isExporting x'
     \<and> containerWidth x' = Percent 100 \<and> containerHeight x' = Percent 100"
  using assms
  by (auto simp: startExport_def Let_def catch_block_fields split: if_splits prod.splits option.splits)

lemma first_upload_refused:
  "capture_loop upload_refused km 10 sid 10 0 x =
     (if isExporting x
      then (Some (UploadFailed 0),
            call (UploadFrame sid 0)
              (call (SetFOV (fov (sample_pose (interpolateAt km 0))))
                (call (SetCameraPosition (interpolateAt km 0)) x)))
      else (Some ExportCancelled, x))"
  by (subst capture_loop.simps) (simp add: upload_refused_def all_well_def Let_def)

text \<open>
  C2 does not hold of the code: the error handler sets the inline size of the container
  to 100 percent, whatever it was before the export, and does not start the clock
  again. Here the export starts on a container of 800 by 600 pixels with the clock
  playing, and the server refuses the upload of the first frame.
\<close>

theorem failed_export_not_restored:
  "isPlaying (controller playing_exporter)
   \<and> containerWidth playing_exporter = Px 800 \<and> containerHeight playing_exporter = Px 600
   \<and> fst (startExport upload_refused hd_10fps two_keyframes playing_exporter) = Failed (UploadFailed 0)
   \<and> containerWidth (snd (startExport upload_refused hd_10fps two_keyframes playing_exporter)) = Percent 100
   \<and> containerHeight (snd (startExport upload_refused hd_10fps two_keyframes playing_exporter)) = Percent 100
   \<and> \<not> isPlaying (controller (snd (startExport upload_refused hd_10fps two_keyframes playing_exporter)))
   \<and> exportProgress (snd (startExport upload_refused hd_10fps two_keyframes playing_exporter)) = 0
   \<and> statusText (snd (startExport upload_refused hd_10fps two_keyframes playing_exporter))
       = ErrorStatus (UploadFailed 0)"
proof -
  let ?r = "startExport upload_refused hd_10fps two_keyframes playing_exporter"
  have n: "\<lceil>duration (controller playing_exporter) * real_of_int (export_fps hd_10fps)\<rceil> = 10"
    by (simp add: playing_exporter_fields hd_10fps_def)
  have env: "start_response upload_refused = Ok" "session_id upload_refused = ''s1''"
    by (simp_all add: upload_refused_def all_well_def)
  have st: "export_fps hd_10fps = 10"
    by (simp add: hd_10fps_def)
  have f: "fst ?r = Failed (UploadFailed 0)"
    by (simp add: startExport_def try_block_def Let_def n env st playing_exporter_fields
        first_upload_refused call_def updateProgress_def)
  have p: "\<not> isPlaying (controller (snd ?r))"
    by (simp add: startExport_def try_block_def Let_def n env st playing_exporter_fields
        first_upload_refused call_def updateProgress_def catch_block_fields pause_fields)
  from f have eq: "?r = (Failed (UploadFailed 0), snd ?r)"
    by (metis prod.collapse)
  note rep = startExport_failed [OF eq]
  from rep have w: "containerWidth (snd ?r) = Percent 100" and h: "containerHeight (snd ?r) = Percent 100"
    and e: "exportProgress (snd ?r) = 0" and s: "statusText (snd ?r) = ErrorStatus (UploadFailed 0)"
    by blast+
  show ?thesis
    by (intro conjI) (fact playing_exporter_fields(2), fact playing_exporter_fields(4),
        fact playing_exporter_fields(5), fact f, fact w, fact h, fact p, fact e, fact s)
qed

end
